theory Spec2Isabelle
  imports Main "HOL-Library.Monad_Syntax" "HOL-Library.Multiset"
begin

section \<open>The auth table of the vault core (vault/auth.go)\<close>

text \<open>
  The file embeds \<^verbatim>\<open>vault/auth.go\<close>: the auth table, its entries, and the
  operations of the core that enable, disable, load, persist and set up credential
  backends.

  Go values that live behind pointers are kept in an explicit store, because the
  code shares them: \<^verbatim>\<open>enableCredential\<close> appends the caller's own
  \<^verbatim>\<open>*AuthEntry\<close> to the candidate table after writing its UUID, and
  \<^verbatim>\<open>Clone\<close> promises copies that share nothing with the original.
  A pointer is \<open>addr option\<close> (\<open>None\<close> is \<^verbatim>\<open>nil\<close>), an address is an
  index into the store, and allocation appends to the store, so a new address is
  the old length of the store and differs from every address in use.

  Every operation that Go can abort with a run-time panic (a nil dereference, an
  index out of range) returns \<open>None\<close> in the model; an operation that returns
  gives \<open>Some\<close> of its results.
\<close>

subsection \<open>Constants (lines 12-29)\<close>

definition coreAuthConfigPath :: string where
  "coreAuthConfigPath = ''core/auth''"

definition credentialBarrierPrefix :: string where
  "credentialBarrierPrefix = ''auth/''"

definition credentialMountPrefix :: string where
  "credentialMountPrefix = ''auth/''"

text \<open>
  An \<^verbatim>\<open>error\<close> is either made by this file with \<^verbatim>\<open>errors.New\<close> or
  \<^verbatim>\<open>fmt.Errorf\<close> (a message), reported by \<^verbatim>\<open>encoding/json\<close>, or
  handed over by a collaborator (barrier, router, backend factory); the last kind is
  opaque to the core and has the type parameter \<open>'e\<close>.
\<close>

datatype 'e error =
    errorString string
  | SyntaxError
  | UnmarshalTypeError
  | External 'e

definition loadAuthFailed :: "'e error" where
  "loadAuthFailed = errorString ''failed to setup auth table''"

subsection \<open>The store\<close>

type_synonym addr = nat

record AuthEntry =
  Name :: string
  Type :: string
  Description :: string
  UUID :: string

text \<open>
  A slice is a header over a backing array: the array's address (\<open>None\<close> for the
  nil slice) and the length. Every slice of this file starts at index 0 of its
  array, so the capacity is the length of the array.
\<close>

record slice =
  base :: "addr option"
  len :: nat

text \<open>
  \<^verbatim>\<open>AuthTable\<close> (lines 32-36). The embedded \<^verbatim>\<open>sync.RWMutex\<close> is not
  modelled: the model runs one operation at a time.
\<close>

record AuthTable =
  Entries :: slice

record heap =
  entryObjs :: "AuthEntry list"
  arrayObjs :: "addr option list list"
  tableObjs :: "AuthTable list"

definition load :: "'a list \<Rightarrow> addr option \<Rightarrow> 'a option" where
  "load objs p =
     (case p of
        None \<Rightarrow> None
      | Some a \<Rightarrow> if a < length objs then Some (objs ! a) else None)"

definition newEntry :: "heap \<Rightarrow> AuthEntry \<Rightarrow> addr option \<times> heap" where
  "newEntry h e = (Some (length (entryObjs h)), h\<lparr>entryObjs := entryObjs h @ [e]\<rparr>)"

definition newArray :: "heap \<Rightarrow> addr option list \<Rightarrow> addr option \<times> heap" where
  "newArray h xs = (Some (length (arrayObjs h)), h\<lparr>arrayObjs := arrayObjs h @ [xs]\<rparr>)"

definition newTable :: "heap \<Rightarrow> AuthTable \<Rightarrow> addr option \<times> heap" where
  "newTable h t = (Some (length (tableObjs h)), h\<lparr>tableObjs := tableObjs h @ [t]\<rparr>)"

definition nilSlice :: slice where
  "nilSlice = \<lparr>base = None, len = 0\<rparr>"

text \<open>\<^verbatim>\<open>make([]*AuthEntry, n)\<close>: a new array of \<open>n\<close> nil pointers.\<close>

definition makeSlice :: "heap \<Rightarrow> nat \<Rightarrow> slice \<times> heap" where
  "makeSlice h n = (let (a, h') = newArray h (replicate n None) in (\<lparr>base = a, len = n\<rparr>, h'))"

text \<open>\<^verbatim>\<open>s[i]\<close> as a value: panics when \<open>i\<close> is not below the length.\<close>

definition index :: "heap \<Rightarrow> slice \<Rightarrow> nat \<Rightarrow> addr option option" where
  "index h s i =
     (if i < len s then
        do { arr \<leftarrow> load (arrayObjs h) (base s);
             if i < length arr then Some (arr ! i) else None }
      else None)"

text \<open>\<^verbatim>\<open>s[i] = p\<close>.\<close>

definition setIndex :: "heap \<Rightarrow> slice \<Rightarrow> nat \<Rightarrow> addr option \<Rightarrow> heap option" where
  "setIndex h s i p =
     (if i < len s then
        (case base s of
           None \<Rightarrow> None
         | Some a \<Rightarrow>
             if a < length (arrayObjs h) \<and> i < length (arrayObjs h ! a)
             then Some (h\<lparr>arrayObjs := (arrayObjs h)[a := (arrayObjs h ! a)[i := p]]\<rparr>)
             else None)
      else None)"

text \<open>
  \<^verbatim>\<open>append(s, p)\<close>: writes in place when the array has room, and copies into a
  new array otherwise. Go may give the new array spare capacity; no code of this
  file appends twice to one slice or slices beyond the length, so the new array has
  exactly the cells in use.
\<close>

definition appendSlice :: "heap \<Rightarrow> slice \<Rightarrow> addr option \<Rightarrow> (slice \<times> heap) option" where
  "appendSlice h s p =
     (case base s of
        None \<Rightarrow> (let (a, h') = newArray h [p] in Some (\<lparr>base = a, len = 1\<rparr>, h'))
      | Some a \<Rightarrow>
          do { arr \<leftarrow> load (arrayObjs h) (Some a);
               if len s < length arr
               then Some (\<lparr>base = Some a, len = len s + 1\<rparr>,
                          h\<lparr>arrayObjs := (arrayObjs h)[a := arr[len s := p]]\<rparr>)
               else (let (a', h') = newArray h (take (len s) arr @ [p])
                     in Some (\<lparr>base = a', len = len s + 1\<rparr>, h')) })"

text \<open>\<^verbatim>\<open>s[:m]\<close>: panics when \<open>m\<close> exceeds the capacity.\<close>

definition reslice :: "heap \<Rightarrow> slice \<Rightarrow> nat \<Rightarrow> slice option" where
  "reslice h s m =
     (case base s of
        None \<Rightarrow> if m = 0 then Some s else None
      | Some a \<Rightarrow>
          do { arr \<leftarrow> load (arrayObjs h) (Some a);
               if m \<le> length arr then Some (s\<lparr>len := m\<rparr>) else None })"

text \<open>The elements of a slice, as \<^verbatim>\<open>range\<close> over a slice that the loop body
  does not write reads them.\<close>

definition elems :: "heap \<Rightarrow> slice \<Rightarrow> addr option list option" where
  "elems h s =
     (case base s of
        None \<Rightarrow> if len s = 0 then Some [] else None
      | Some a \<Rightarrow>
          do { arr \<leftarrow> load (arrayObjs h) (Some a);
               if len s \<le> length arr then Some (take (len s) arr) else None })"

subsection \<open>Clone (lines 38-47 and 57-65)\<close>

definition AuthEntry_Clone :: "heap \<Rightarrow> addr option \<Rightarrow> (addr option \<times> heap) option" where
  "AuthEntry_Clone h a =
     do { e \<leftarrow> load (entryObjs h) a;
          Some (newEntry h \<lparr>Name = Name e, Type = Type e,
                            Description = Description e, UUID = UUID e\<rparr>) }"

text \<open>
  The loop of \<^verbatim>\<open>AuthTable.Clone\<close>: \<^verbatim>\<open>range t.Entries\<close> evaluates the
  slice header \<open>src\<close> once and reads element \<open>i\<close> in iteration \<open>i\<close>; the body
  writes \<^verbatim>\<open>at.Entries[i]\<close> through the table \<open>at\<close>.
\<close>

function CloneLoop :: "heap \<Rightarrow> slice \<Rightarrow> addr option \<Rightarrow> nat \<Rightarrow> heap option" where
  "CloneLoop h src at i =
     (if i < len src then
        (case index h src i of
           None \<Rightarrow> None
         | Some e \<Rightarrow>
            (case AuthEntry_Clone h e of
               None \<Rightarrow> None
             | Some (e', h1) \<Rightarrow>
                (case load (tableObjs h1) at of
                   None \<Rightarrow> None
                 | Some dst \<Rightarrow>
                    (case setIndex h1 (Entries dst) i e' of
                       None \<Rightarrow> None
                     | Some h2 \<Rightarrow> CloneLoop h2 src at (i + 1)))))
      else Some h)"
  by pat_completeness auto
termination
  by (relation "measure (\<lambda>(h, src, at, i). len src - i)") auto

declare CloneLoop.simps [simp del]

definition AuthTable_Clone :: "heap \<Rightarrow> addr option \<Rightarrow> (addr option \<times> heap) option" where
  "AuthTable_Clone h t =
     do { tab \<leftarrow> load (tableObjs h) t;
          let (s, h1) = makeSlice h (len (Entries tab));
              (at, h2) = newTable h1 \<lparr>Entries = s\<rparr>
          in do { h3 \<leftarrow> CloneLoop h2 (Entries tab) at 0;
                  Some (at, h3) } }"

subsection \<open>The persisted form: encoding/json on the two structs\<close>

text \<open>
  \<^verbatim>\<open>encoding/json\<close> is a library, not code of this file; what the file fixes
  is the shape of the structs and their field tags (lines 35 and 51-54). The model
  works on JSON documents: a byte string is either the text of a document or no
  JSON text at all, and two texts of one document (other white space, other
  escapes) are not told apart. A string of a document stands for the Go string it
  denotes; the replacement of invalid UTF-8 is not modelled.
\<close>

datatype json =
    JNull
  | JBool bool
  | JNumber string
  | JString string
  | JArray "json list"
  | JObject "(string \<times> json) list"

datatype bytes = JSONText json | NotJSON string

text \<open>The field tags as the source writes them; the tag of \<^verbatim>\<open>Name\<close> ends
  with a space.\<close>

definition tag_Entries :: string where "tag_Entries = ''entries''"
definition tag_Name :: string where "tag_Name = ''name ''"
definition tag_Type :: string where "tag_Type = ''type''"
definition tag_Description :: string where "tag_Description = ''description''"
definition tag_UUID :: string where "tag_UUID = ''uuid''"

definition encodeEntry :: "AuthEntry \<Rightarrow> json" where
  "encodeEntry e =
     JObject [(tag_Name, JString (Name e)), (tag_Type, JString (Type e)),
              (tag_Description, JString (Description e)), (tag_UUID, JString (UUID e))]"

fun encodePtrs :: "heap \<Rightarrow> addr option list \<Rightarrow> json list option" where
  "encodePtrs h [] = Some []"
| "encodePtrs h (None # ps) = do { js \<leftarrow> encodePtrs h ps; Some (JNull # js) }"
| "encodePtrs h (Some a # ps) =
     do { e \<leftarrow> load (entryObjs h) (Some a);
          js \<leftarrow> encodePtrs h ps;
          Some (encodeEntry e # js) }"

text \<open>
  \<^verbatim>\<open>json.Marshal(table)\<close>. For these types the encoder has no failing case (the
  mutex has no exported field, every other field is a string), so the result is
  the bytes alone and the \<^verbatim>\<open>err != nil\<close> branch of \<^verbatim>\<open>persistAuth\<close>
  (lines 192-195) is never taken. A nil slice is written as \<^verbatim>\<open>null\<close>, a nil
  pointer as \<^verbatim>\<open>null\<close>.
\<close>

definition json_Marshal :: "heap \<Rightarrow> addr option \<Rightarrow> bytes option" where
  "json_Marshal h t =
     (case t of
        None \<Rightarrow> Some (JSONText JNull)
      | Some a \<Rightarrow>
          do { tab \<leftarrow> load (tableObjs h) (Some a);
               (case base (Entries tab) of
                  None \<Rightarrow> Some (JSONText (JObject [(tag_Entries, JNull)]))
                | Some b \<Rightarrow>
                    do { ps \<leftarrow> elems h (Entries tab);
                         js \<leftarrow> encodePtrs h ps;
                         Some (JSONText (JObject [(tag_Entries, JArray js)])) }) })"

text \<open>
  Decoding, by the rules of the package documentation: an object key selects the
  field whose tag it equals, or equals up to case; other keys are skipped;
  \<^verbatim>\<open>null\<close> sets a pointer or slice to nil and leaves a string or struct as it
  is; a value of the wrong kind is skipped, the decoder goes on, and at the end it
  reports an \<^verbatim>\<open>UnmarshalTypeError\<close>; a key that comes twice decodes into what
  the first left.
\<close>

definition isLetter :: "char \<Rightarrow> bool" where
  "isLetter c = (let n = (of_char c :: nat) in (65 \<le> n \<and> n \<le> 90) \<or> (97 \<le> n \<and> n \<le> 122))"

definition upper :: "char \<Rightarrow> nat" where
  "upper c = (let n = (of_char c :: nat) in if 97 \<le> n \<and> n \<le> 122 then n - 32 else n)"

text \<open>Equality up to case of a tag \<open>s\<close> (ASCII) and a key \<open>t\<close>: letters match in
  either case, and the Kelvin sign and the long s (as UTF-8) match k and s.\<close>

fun equalFold :: "string \<Rightarrow> string \<Rightarrow> bool" where
  "equalFold [] t = (t = [])"
| "equalFold (sb # s) [] = False"
| "equalFold (sb # s) (tb # t) =
     (if (of_char tb :: nat) < 128
      then (sb = tb \<or> (isLetter sb \<and> upper sb = upper tb)) \<and> equalFold s t
      else if upper sb = 83 \<and> map of_char (take 2 (tb # t)) = [197, 191 :: nat]
      then equalFold s (drop 1 t)
      else if upper sb = 75 \<and> map of_char (take 3 (tb # t)) = [226, 132, 170 :: nat]
      then equalFold s (drop 2 t)
      else False)"

definition zeroEntry :: AuthEntry where
  "zeroEntry = \<lparr>Name = [], Type = [], Description = [], UUID = []\<rparr>"

text \<open>Each decoder takes the current value of its destination and returns the new
  value and whether a value of the wrong kind was met.\<close>

definition decodeString :: "string \<Rightarrow> json \<Rightarrow> string \<times> bool" where
  "decodeString cur v =
     (case v of JString s \<Rightarrow> (s, False) | JNull \<Rightarrow> (cur, False) | _ \<Rightarrow> (cur, True))"

definition decodeField :: "AuthEntry \<Rightarrow> string \<times> json \<Rightarrow> AuthEntry \<times> bool" where
  "decodeField e kv =
     (let (k, v) = kv in
      if equalFold tag_Name k
      then (let (s, bad) = decodeString (Name e) v in (e\<lparr>Name := s\<rparr>, bad))
      else if equalFold tag_Type k
      then (let (s, bad) = decodeString (Type e) v in (e\<lparr>Type := s\<rparr>, bad))
      else if equalFold tag_Description k
      then (let (s, bad) = decodeString (Description e) v in (e\<lparr>Description := s\<rparr>, bad))
      else if equalFold tag_UUID k
      then (let (s, bad) = decodeString (UUID e) v in (e\<lparr>UUID := s\<rparr>, bad))
      else (e, False))"

fun decodeFields :: "AuthEntry \<Rightarrow> (string \<times> json) list \<Rightarrow> AuthEntry \<times> bool" where
  "decodeFields e [] = (e, False)"
| "decodeFields e (kv # kvs) =
     (let (e1, bad1) = decodeField e kv;
          (e2, bad2) = decodeFields e1 kvs
      in (e2, bad1 \<or> bad2))"

definition decodeStruct :: "AuthEntry \<Rightarrow> json \<Rightarrow> AuthEntry \<times> bool" where
  "decodeStruct e v =
     (case v of JObject kvs \<Rightarrow> decodeFields e kvs | JNull \<Rightarrow> (e, False) | _ \<Rightarrow> (e, True))"

text \<open>Into a \<^verbatim>\<open>*AuthEntry\<close>: a value other than \<^verbatim>\<open>null\<close> allocates the
  entry when the pointer is nil, before its kind is looked at.\<close>

definition decodePtr :: "AuthEntry option \<Rightarrow> json \<Rightarrow> AuthEntry option \<times> bool" where
  "decodePtr p v =
     (case v of
        JNull \<Rightarrow> (None, False)
      | _ \<Rightarrow> (let (e, bad) = decodeStruct (case p of None \<Rightarrow> zeroEntry | Some e0 \<Rightarrow> e0) v
              in (Some e, bad)))"

fun decodeElems :: "AuthEntry option list \<Rightarrow> json list \<Rightarrow> AuthEntry option list \<times> bool" where
  "decodeElems cur [] = ([], False)"
| "decodeElems cur (v # vs) =
     (let (p, bad1) = decodePtr (case cur of [] \<Rightarrow> None | c # _ \<Rightarrow> c) v;
          (ps, bad2) = decodeElems (tl cur) vs
      in (p # ps, bad1 \<or> bad2))"

text \<open>The value of a \<^verbatim>\<open>[]*AuthEntry\<close> with its pointers followed: \<open>None\<close> is
  the nil slice, an element \<open>None\<close> a nil pointer.\<close>

type_synonym entriesVal = "AuthEntry option list option"

definition decodeSlice :: "entriesVal \<Rightarrow> json \<Rightarrow> entriesVal \<times> bool" where
  "decodeSlice cur v =
     (case v of
        JNull \<Rightarrow> (None, False)
      | JArray vs \<Rightarrow>
          (let (ps, bad) = decodeElems (case cur of None \<Rightarrow> [] | Some xs \<Rightarrow> xs) vs
           in (Some ps, bad))
      | _ \<Rightarrow> (cur, True))"

fun decodeTableFields :: "entriesVal \<Rightarrow> (string \<times> json) list \<Rightarrow> entriesVal \<times> bool" where
  "decodeTableFields cur [] = (cur, False)"
| "decodeTableFields cur ((k, v) # kvs) =
     (let (cur1, bad1) = (if equalFold tag_Entries k then decodeSlice cur v else (cur, False));
          (cur2, bad2) = decodeTableFields cur1 kvs
      in (cur2, bad1 \<or> bad2))"

definition decodeTable :: "entriesVal \<Rightarrow> json \<Rightarrow> entriesVal \<times> bool" where
  "decodeTable cur v =
     (case v of
        JObject kvs \<Rightarrow> decodeTableFields cur kvs
      | JNull \<Rightarrow> (cur, False)
      | _ \<Rightarrow> (cur, True))"

fun newEntries :: "heap \<Rightarrow> AuthEntry option list \<Rightarrow> addr option list \<times> heap" where
  "newEntries h [] = ([], h)"
| "newEntries h (None # es) = (let (ps, h') = newEntries h es in (None # ps, h'))"
| "newEntries h (Some e # es) =
     (let (p, h1) = newEntry h e; (ps, h2) = newEntries h1 es in (p # ps, h2))"

text \<open>
  \<^verbatim>\<open>json.Unmarshal(raw.Value, c.auth)\<close> where \<^verbatim>\<open>c.auth\<close> is the zero table
  that line 168 has just allocated (the only call of the file). Bytes that are no
  JSON text are refused before the destination is touched. Otherwise the decoded
  entries are allocated and stored in the table, also when an
  \<^verbatim>\<open>UnmarshalTypeError\<close> is reported.
\<close>

definition json_Unmarshal ::
  "bytes \<Rightarrow> heap \<Rightarrow> addr option \<Rightarrow> ('e error option \<times> heap) option" where
  "json_Unmarshal raw h dest =
     (case raw of
        NotJSON s \<Rightarrow> Some (Some SyntaxError, h)
      | JSONText v \<Rightarrow>
          (case dest of
             None \<Rightarrow> None
           | Some a \<Rightarrow>
               if a < length (tableObjs h) then
                 (let (val, bad) = decodeTable None v;
                      err = (if bad then Some UnmarshalTypeError else None)
                  in (case val of
                        None \<Rightarrow> Some (err, h)
                      | Some es \<Rightarrow>
                          (let (ps, h1) = newEntries h es;
                               (arr, h2) = newArray h1 ps
                           in Some (err, h2\<lparr>tableObjs :=
                                (tableObjs h2)[a := \<lparr>Entries = \<lparr>base = arr, len = length ps\<rparr>\<rparr>]\<rparr>))))
               else None))"

subsection \<open>The core and its collaborators\<close>

text \<open>
  The barrier, the router, the backend factories and \<^verbatim>\<open>generateUUID\<close> are
  not code of this file. Each is a state of a type of its own and operations that
  are parameters of the model: an operation takes the collaborator's state and the
  arguments of the call, and gives the result with the next state. Nothing is
  assumed about them, so a theorem holds for every barrier and every router.
  Reading the barrier does not change it. A backend factory (an element of the map
  \<^verbatim>\<open>c.credentialBackends\<close>) is a function from the configuration to an error
  or a backend.
\<close>

record Entry =
  Key :: string
  Value :: bytes

text \<open>A barrier view: the one barrier of the core, seen under a prefix.\<close>

datatype BarrierView = NewBarrierView string

type_synonym conf = "(string \<times> string) list option"

record ('b, 'r, 'g, 'e, 'bk) collaborators =
  barrier_Get :: "'b \<Rightarrow> string \<Rightarrow> 'e + Entry option"
  barrier_Put :: "'b \<Rightarrow> Entry \<Rightarrow> 'e option \<times> 'b"
  router_Mount :: "'r \<Rightarrow> 'bk \<Rightarrow> string \<Rightarrow> BarrierView \<Rightarrow> 'e option \<times> 'r"
  router_Unmount :: "'r \<Rightarrow> string \<Rightarrow> 'e option \<times> 'r"
  generateUUID :: "'g \<Rightarrow> string \<times> 'g"

text \<open>
  Of the fields of the core, \<open>auth\<close>, \<open>barrier\<close>, \<open>router\<close> and
  \<open>credentialBackends\<close> are fields of the Go struct. The field \<open>mem\<close> is the
  store, \<open>uuids\<close> the state of the UUID generator, and \<open>calls\<close> the record of
  the calls the core makes on the barrier, the router and the logger, in order and
  with their results. A \<^verbatim>\<open>Printf\<close> is recorded with the text of its format
  string before the first verb.
\<close>

datatype ('e, 'bk) call =
    Get string
  | Put Entry "'e option"
  | Mount 'bk string BarrierView "'e option"
  | Unmount string "'e option"
  | Printf string

record ('b, 'r, 'g, 'e, 'bk) Core =
  auth :: "addr option"
  mem :: heap
  barrier :: 'b
  router :: 'r
  uuids :: 'g
  credentialBackends :: "string \<Rightarrow> (conf \<Rightarrow> 'e + 'bk) option"
  calls :: "('e, 'bk) call list"

definition called ::
  "('b, 'r, 'g, 'e, 'bk) Core \<Rightarrow> ('e, 'bk) call \<Rightarrow> ('b, 'r, 'g, 'e, 'bk) Core" where
  "called c ev = c\<lparr>calls := calls c @ [ev]\<rparr>"

subsection \<open>newCredentialBackend (lines 248-255)\<close>

definition newCredentialBackend ::
  "('b, 'r, 'g, 'e, 'bk) Core \<Rightarrow> string \<Rightarrow> conf \<Rightarrow> 'e error + 'bk" where
  "newCredentialBackend c t cf =
     (case credentialBackends c t of
        None \<Rightarrow> Inl (errorString (''unknown backend type: '' @ t))
      | Some f \<Rightarrow> (case f cf of Inl e \<Rightarrow> Inl (External e) | Inr b \<Rightarrow> Inr b))"

subsection \<open>persistAuth (lines 188-209)\<close>

definition persistAuth ::
  "('b, 'r, 'g, 'e, 'bk) collaborators \<Rightarrow> ('b, 'r, 'g, 'e, 'bk) Core \<Rightarrow> addr option
     \<Rightarrow> ('e error option \<times> ('b, 'r, 'g, 'e, 'bk) Core) option" where
  "persistAuth env c table =
     do { raw \<leftarrow> json_Marshal (mem c) table;
          let entry = \<lparr>Key = coreAuthConfigPath, Value = raw\<rparr>;
              (err, b) = barrier_Put env (barrier c) entry;
              c1 = called (c\<lparr>barrier := b\<rparr>) (Put entry err)
          in (case err of
                Some e \<Rightarrow>
                  Some (Some (External e),
                        called c1 (Printf ''[ERR] core: failed to persist auth table: ''))
              | None \<Rightarrow> Some (None, c1)) }"

subsection \<open>enableCredential (lines 67-114)\<close>

text \<open>
  \<^verbatim>\<open>c.auth.Lock()\<close> (lines 69 and 118) calls a method of the mutex embedded in
  the table that \<^verbatim>\<open>c.auth\<close> points to, so it panics when \<^verbatim>\<open>c.auth\<close> is
  nil; this is the first step of \<^verbatim>\<open>enableCredential\<close> and of
  \<^verbatim>\<open>disableCredential\<close> below. The deferred unlock changes nothing that the
  model keeps.

  The loop of lines 78-82 over the elements of \<^verbatim>\<open>c.auth.Entries\<close>.
\<close>

fun nameInUse :: "heap \<Rightarrow> addr option list \<Rightarrow> string \<Rightarrow> bool option" where
  "nameInUse h [] name = Some False"
| "nameInUse h (p # ps) name =
     (case load (entryObjs h) p of
        None \<Rightarrow> None
      | Some ent \<Rightarrow> if Name ent = name then Some True else nameInUse h ps name)"

text \<open>\<^verbatim>\<open>entry.UUID = u\<close>.\<close>

definition setUUID :: "heap \<Rightarrow> addr option \<Rightarrow> string \<Rightarrow> heap option" where
  "setUUID h p u =
     (case p of
        None \<Rightarrow> None
      | Some a \<Rightarrow>
          if a < length (entryObjs h)
          then Some (h\<lparr>entryObjs := (entryObjs h)[a := (entryObjs h ! a)\<lparr>UUID := u\<rparr>]\<rparr>)
          else None)"

text \<open>\<^verbatim>\<open>t.Entries = s\<close>.\<close>

definition setEntries :: "heap \<Rightarrow> addr option \<Rightarrow> slice \<Rightarrow> heap option" where
  "setEntries h t s =
     (case t of
        None \<Rightarrow> None
      | Some a \<Rightarrow>
          if a < length (tableObjs h)
          then Some (h\<lparr>tableObjs := (tableObjs h)[a := (tableObjs h ! a)\<lparr>Entries := s\<rparr>]\<rparr>)
          else None)"

text \<open>Lines 107-113: mount the backend, after the table is committed.\<close>

definition mountBackend ::
  "('b, 'r, 'g, 'e, 'bk) collaborators \<Rightarrow> ('b, 'r, 'g, 'e, 'bk) Core \<Rightarrow> addr option
     \<Rightarrow> 'bk \<Rightarrow> BarrierView \<Rightarrow> ('e error option \<times> ('b, 'r, 'g, 'e, 'bk) Core) option" where
  "mountBackend env c entry backend view =
     do { e \<leftarrow> load (entryObjs (mem c)) entry;
          let path = credentialMountPrefix @ Name e @ ''/'';
              (err, r) = router_Mount env (router c) backend path view;
              c1 = called (c\<lparr>router := r\<rparr>) (Mount backend path view err)
          in (case err of
                Some x \<Rightarrow> Some (Some (External x), c1)
              | None \<Rightarrow>
                  Some (None, called c1 (Printf ''[INFO] core: enabled credential backend ''))) }"

text \<open>Lines 95-113: the part of \<^verbatim>\<open>enableCredential\<close> after the checks.\<close>

definition commitEnable ::
  "('b, 'r, 'g, 'e, 'bk) collaborators \<Rightarrow> ('b, 'r, 'g, 'e, 'bk) Core \<Rightarrow> addr option
     \<Rightarrow> 'bk \<Rightarrow> ('e error option \<times> ('b, 'r, 'g, 'e, 'bk) Core) option" where
  "commitEnable env c entry backend =
     (let (u, g) = generateUUID env (uuids c) in
      do { h1 \<leftarrow> setUUID (mem c) entry u;
           let view = NewBarrierView (credentialBarrierPrefix @ u @ ''/'');
           (nt, h2) \<leftarrow> AuthTable_Clone h1 (auth c);
           tab \<leftarrow> load (tableObjs h2) nt;
           (s, h3) \<leftarrow> appendSlice h2 (Entries tab) entry;
           h4 \<leftarrow> setEntries h3 nt s;
           (perr, c1) \<leftarrow> persistAuth env (c\<lparr>mem := h4, uuids := g\<rparr>) nt;
           (case perr of
              Some x \<Rightarrow> Some (Some (errorString ''failed to update auth table''), c1)
            | None \<Rightarrow> mountBackend env (c1\<lparr>auth := nt\<rparr>) entry backend view) })"

definition enableCredential ::
  "('b, 'r, 'g, 'e, 'bk) collaborators \<Rightarrow> ('b, 'r, 'g, 'e, 'bk) Core \<Rightarrow> addr option
     \<Rightarrow> ('e error option \<times> ('b, 'r, 'g, 'e, 'bk) Core) option" where
  "enableCredential env c entry =
     do { live \<leftarrow> load (tableObjs (mem c)) (auth c);
          e \<leftarrow> load (entryObjs (mem c)) entry;
          if Name e = '''' then Some (Some (errorString ''backend name must be specified''), c)
          else
            do { ps \<leftarrow> elems (mem c) (Entries live);
                 used \<leftarrow> nameInUse (mem c) ps (Name e);
                 if used then Some (Some (errorString ''name already in use''), c)
                 else if Type e = ''token''
                 then Some (Some (errorString ''token credential backend cannot be instantiated''), c)
                 else
                   (case newCredentialBackend c (Type e) None of
                      Inl err \<Rightarrow> Some (Some err, c)
                    | Inr backend \<Rightarrow> commitEnable env c entry backend) } }"

subsection \<open>disableCredential (lines 116-157)\<close>

text \<open>
  The loop of lines 130-137 on the cloned table \<open>nt\<close>, with \<open>n\<close> the length read
  in line 129. At the first entry of the name it stores the last element at
  \<open>i\<close>, then nil at \<open>n - 1\<close> (the two assignments of line 132, left to right, with
  the right-hand sides read before), cuts the slice to \<open>n - 1\<close> and stops with
  \<open>True\<close> for \<^verbatim>\<open>found\<close>.
\<close>

function removeLoop :: "heap \<Rightarrow> addr option \<Rightarrow> nat \<Rightarrow> nat \<Rightarrow> string \<Rightarrow> (bool \<times> heap) option" where
  "removeLoop h nt i n name =
     (if i < n then
        (case load (tableObjs h) nt of
           None \<Rightarrow> None
         | Some tab \<Rightarrow>
            (case index h (Entries tab) i of
               None \<Rightarrow> None
             | Some p \<Rightarrow>
                (case load (entryObjs h) p of
                   None \<Rightarrow> None
                 | Some ent \<Rightarrow>
                    if Name ent = name then
                      do { last \<leftarrow> index h (Entries tab) (n - 1);
                           h1 \<leftarrow> setIndex h (Entries tab) i last;
                           h2 \<leftarrow> setIndex h1 (Entries tab) (n - 1) None;
                           s \<leftarrow> reslice h2 (Entries tab) (n - 1);
                           h3 \<leftarrow> setEntries h2 nt s;
                           Some (True, h3) }
                    else removeLoop h nt (i + 1) n name)))
      else Some (False, h))"
  by pat_completeness auto
termination
  by (relation "measure (\<lambda>(h, nt, i, n, name). n - i)") auto

declare removeLoop.simps [simp del]

definition disableCredential ::
  "('b, 'r, 'g, 'e, 'bk) collaborators \<Rightarrow> ('b, 'r, 'g, 'e, 'bk) Core \<Rightarrow> string
     \<Rightarrow> ('e error option \<times> ('b, 'r, 'g, 'e, 'bk) Core) option" where
  "disableCredential env c name =
     do { live \<leftarrow> load (tableObjs (mem c)) (auth c);
          if name = ''token''
          then Some (Some (errorString ''token credential backend cannot be disabled''), c)
          else
            do { (nt, h1) \<leftarrow> AuthTable_Clone (mem c) (auth c);
                 tab \<leftarrow> load (tableObjs h1) nt;
                 (found, h2) \<leftarrow> removeLoop h1 nt 0 (len (Entries tab)) name;
                 if \<not> found then Some (Some (errorString ''no matching backend''), c\<lparr>mem := h2\<rparr>)
                 else
                   do { (perr, c1) \<leftarrow> persistAuth env (c\<lparr>mem := h2\<rparr>) nt;
                        (case perr of
                           Some x \<Rightarrow> Some (Some (errorString ''failed to update auth table''), c1)
                         | None \<Rightarrow>
                            (let c2 = c1\<lparr>auth := nt\<rparr>;
                                 path = credentialMountPrefix @ name @ ''/'';
                                 (err, r) = router_Unmount env (router c2) path;
                                 c3 = called (c2\<lparr>router := r\<rparr>) (Unmount path err)
                             in (case err of
                                   Some x \<Rightarrow> Some (Some (External x), c3)
                                 | None \<Rightarrow>
                                     Some (None, called c3
                                       (Printf ''[INFO] core: disabled credential backend ''))))) } } }"

subsection \<open>defaultAuthTable (lines 257-268)\<close>

definition defaultAuthTable ::
  "('b, 'r, 'g, 'e, 'bk) collaborators \<Rightarrow> 'g \<Rightarrow> heap \<Rightarrow> (addr option \<times> heap \<times> 'g) option" where
  "defaultAuthTable env g h =
     (let (table, h1) = newTable h \<lparr>Entries = nilSlice\<rparr>;
          (u, g1) = generateUUID env g;
          (tokenAuth, h2) = newEntry h1 \<lparr>Name = ''token'', Type = ''token'',
                                         Description = ''token based credentials'', UUID = u\<rparr>
      in do { tab \<leftarrow> load (tableObjs h2) table;
              (s, h3) \<leftarrow> appendSlice h2 (Entries tab) tokenAuth;
              h4 \<leftarrow> setEntries h3 table s;
              Some (table, h4, g1) })"

subsection \<open>loadCredentials (lines 159-186)\<close>

text \<open>Lines 175-185: what \<^verbatim>\<open>loadCredentials\<close> does after the stored record, if
  any, has been decoded.\<close>

definition restoreOrDefault ::
  "('b, 'r, 'g, 'e, 'bk) collaborators \<Rightarrow> ('b, 'r, 'g, 'e, 'bk) Core
     \<Rightarrow> ('e error option \<times> ('b, 'r, 'g, 'e, 'bk) Core) option" where
  "restoreOrDefault env c =
     (if auth c \<noteq> None then Some (None, c)
      else
        do { (t, h, g) \<leftarrow> defaultAuthTable env (uuids c) (mem c);
             (perr, c1) \<leftarrow> persistAuth env (c\<lparr>auth := t, mem := h, uuids := g\<rparr>) t;
             (case perr of
                Some x \<Rightarrow> Some (Some loadAuthFailed, c1)
              | None \<Rightarrow> Some (None, c1)) })"

definition loadCredentials ::
  "('b, 'r, 'g, 'e, 'bk) collaborators \<Rightarrow> ('b, 'r, 'g, 'e, 'bk) Core
     \<Rightarrow> ('e error option \<times> ('b, 'r, 'g, 'e, 'bk) Core) option" where
  "loadCredentials env c =
     (let c0 = called c (Get coreAuthConfigPath) in
      case barrier_Get env (barrier c) coreAuthConfigPath of
        Inl err \<Rightarrow>
          Some (Some loadAuthFailed, called c0 (Printf ''[ERR] core: failed to read auth table: ''))
      | Inr None \<Rightarrow> restoreOrDefault env c0
      | Inr (Some raw) \<Rightarrow>
          (let (t, h) = newTable (mem c0) \<lparr>Entries = nilSlice\<rparr>;
               c1 = c0\<lparr>auth := t, mem := h\<rparr>
           in do { (err, h1) \<leftarrow> json_Unmarshal (Value raw) (mem c1) (auth c1);
                   (case (err :: 'e error option) of
                      Some x \<Rightarrow>
                        Some (Some loadAuthFailed,
                              called (c1\<lparr>mem := h1\<rparr>)
                                (Printf ''[ERR] core: failed to decode auth table: ''))
                    | None \<Rightarrow> restoreOrDefault env (c1\<lparr>mem := h1\<rparr>)) }))"

subsection \<open>setupCredentials (lines 211-239)\<close>

text \<open>The loop of lines 217-237 over the elements of \<^verbatim>\<open>c.auth.Entries\<close>; the
  body writes nothing to the store.\<close>

fun setupLoop ::
  "('b, 'r, 'g, 'e, 'bk) collaborators \<Rightarrow> ('b, 'r, 'g, 'e, 'bk) Core \<Rightarrow> addr option list
     \<Rightarrow> ('e error option \<times> ('b, 'r, 'g, 'e, 'bk) Core) option" where
  "setupLoop env c [] = Some (None, c)"
| "setupLoop env c (p # ps) =
     (case load (entryObjs (mem c)) p of
        None \<Rightarrow> None
      | Some entry \<Rightarrow>
         (case newCredentialBackend c (Type entry) None of
            Inl err \<Rightarrow>
              Some (Some loadAuthFailed,
                    called c (Printf ''[ERR] core: failed to create credential entry ''))
          | Inr backend \<Rightarrow>
             (let view = NewBarrierView (credentialBarrierPrefix @ UUID entry @ ''/'');
                  path = credentialMountPrefix @ Name entry @ ''/'';
                  (err, r) = router_Mount env (router c) backend path view;
                  c1 = called (c\<lparr>router := r\<rparr>) (Mount backend path view err)
              in (case err of
                    Some x \<Rightarrow>
                      Some (Some loadAuthFailed,
                            called c1 (Printf ''[ERR] core: failed to mount auth entry ''))
                  | None \<Rightarrow> setupLoop env c1 ps))))"

definition setupCredentials ::
  "('b, 'r, 'g, 'e, 'bk) collaborators \<Rightarrow> ('b, 'r, 'g, 'e, 'bk) Core
     \<Rightarrow> ('e error option \<times> ('b, 'r, 'g, 'e, 'bk) Core) option" where
  "setupCredentials env c =
     do { live \<leftarrow> load (tableObjs (mem c)) (auth c);
          ps \<leftarrow> elems (mem c) (Entries live);
          setupLoop env c ps }"

subsection \<open>teardownCredentials (lines 241-246)\<close>

definition teardownCredentials ::
  "('b, 'r, 'g, 'e, 'bk) Core \<Rightarrow> ('e error option \<times> ('b, 'r, 'g, 'e, 'bk) Core) option" where
  "teardownCredentials c = Some (None, c\<lparr>auth := None\<rparr>)"

subsection \<open>What the theorems speak about\<close>

text \<open>
  A table is well formed when its pointer, its slice and every element of the
  slice point to something: this is what an auth table is in the data model (an
  ordered collection of entries). On a table with a nil element \<^verbatim>\<open>Clone\<close> and
  the loops over the entries panic.
\<close>

definition wfTable :: "heap \<Rightarrow> addr option \<Rightarrow> bool" where
  "wfTable h t =
     (case load (tableObjs h) t of
        None \<Rightarrow> False
      | Some tab \<Rightarrow>
          (case elems h (Entries tab) of
             None \<Rightarrow> False
           | Some ps \<Rightarrow> list_all (\<lambda>p. load (entryObjs h) p \<noteq> None) ps))"

text \<open>
  All there is to see of a table: its header, the pointers in its slice, and the
  entries they point to. Two stores show the same table when the snapshots agree.
\<close>

definition snapshot ::
  "heap \<Rightarrow> addr option \<Rightarrow> (AuthTable \<times> addr option list \<times> AuthEntry option list) option" where
  "snapshot h t =
     do { tab \<leftarrow> load (tableObjs h) t;
          ps \<leftarrow> elems h (Entries tab);
          Some (tab, ps, map (load (entryObjs h)) ps) }"

text \<open>The entries of a table, by value.\<close>

definition entriesOf :: "heap \<Rightarrow> addr option \<Rightarrow> AuthEntry option list option" where
  "entriesOf h t = map_option (\<lambda>(tab, ps, es). es) (snapshot h t)"

text \<open>The calls an operation made: those of the state after it that the state
  before it did not have.\<close>

definition newCalls ::
  "('b, 'r, 'g, 'e, 'bk) Core \<Rightarrow> ('b, 'r, 'g, 'e, 'bk) Core \<Rightarrow> ('e, 'bk) call list" where
  "newCalls c c' = drop (length (calls c)) (calls c')"

fun isMount :: "('e, 'bk) call \<Rightarrow> bool" where
  "isMount (Mount b p v r) = True"
| "isMount _ = False"

fun isUnmount :: "('e, 'bk) call \<Rightarrow> bool" where
  "isUnmount (Unmount p r) = True"
| "isUnmount _ = False"

fun failedPut :: "('e, 'bk) call \<Rightarrow> bool" where
  "failedPut (Put e (Some x)) = True"
| "failedPut _ = False"

fun failedMount :: "('e, 'bk) call \<Rightarrow> bool" where
  "failedMount (Mount b p v (Some x)) = True"
| "failedMount _ = False"

text \<open>\<^verbatim>\<open>*p = e\<close>: overwriting the entry that \<open>p\<close> points to.\<close>

definition setEntry :: "heap \<Rightarrow> addr option \<Rightarrow> AuthEntry \<Rightarrow> heap option" where
  "setEntry h p e =
     (case p of
        None \<Rightarrow> None
      | Some a \<Rightarrow>
          if a < length (entryObjs h) then Some (h\<lparr>entryObjs := (entryObjs h)[a := e]\<rparr>)
          else None)"

text \<open>The names of the entries of a table.\<close>

definition namesOf :: "heap \<Rightarrow> addr option \<Rightarrow> string list" where
  "namesOf h t =
     (case entriesOf h t of
        None \<Rightarrow> []
      | Some es \<Rightarrow> concat (map (\<lambda>x. case x of None \<Rightarrow> [] | Some e \<Rightarrow> [Name e]) es))"

text \<open>The token entry of the default table with UUID \<open>u\<close>, and the record that
  persists the default table.\<close>

definition tokenEntry :: "string \<Rightarrow> AuthEntry" where
  "tokenEntry u = \<lparr>Name = ''token'', Type = ''token'',
                   Description = ''token based credentials'', UUID = u\<rparr>"

definition defaultRecord :: "string \<Rightarrow> Entry" where
  "defaultRecord u =
     \<lparr>Key = coreAuthConfigPath,
      Value = JSONText (JObject [(tag_Entries, JArray [encodeEntry (tokenEntry u)])])\<rparr>"

text \<open>Whether \<^verbatim>\<open>json.Unmarshal\<close> into a zero table reports an error on the
  bytes, and the entries the table holds after it.\<close>

definition decodeFails :: "bytes \<Rightarrow> bool" where
  "decodeFails raw = (case raw of NotJSON s \<Rightarrow> True | JSONText v \<Rightarrow> snd (decodeTable None v))"

definition decoded :: "bytes \<Rightarrow> AuthEntry option list" where
  "decoded raw =
     (case raw of
        NotJSON s \<Rightarrow> []
      | JSONText v \<Rightarrow> (case fst (decodeTable None v) of None \<Rightarrow> [] | Some es \<Rightarrow> es))"

text \<open>The paths of the mounts that succeeded among some calls, in order, and the
  path at which the backend of an entry is mounted.\<close>

fun mountedPath :: "('e, 'bk) call \<Rightarrow> string list" where
  "mountedPath (Mount b p v None) = [p]"
| "mountedPath _ = []"

definition mountedPaths :: "('e, 'bk) call list \<Rightarrow> string list" where
  "mountedPaths cs = concat (map mountedPath cs)"

definition mountPath :: "AuthEntry \<Rightarrow> string" where
  "mountPath e = credentialMountPrefix @ Name e @ ''/''"

text \<open>The view that an entry's backend is given, and the record of a successful
  \<^verbatim>\<open>Mount\<close> of the backend of an entry (the backend is the one its factory
  returns).\<close>

definition viewOf :: "AuthEntry \<Rightarrow> BarrierView" where
  "viewOf e = NewBarrierView (credentialBarrierPrefix @ UUID e @ ''/'')"

definition mountCall :: "('b, 'r, 'g, 'e, 'bk) Core \<Rightarrow> AuthEntry \<Rightarrow> ('e, 'bk) call" where
  "mountCall c e =
     Mount (projr (newCredentialBackend c (Type e) None)) (mountPath e) (viewOf e) None"

text \<open>
  The state in which recorded calls leave the router: the calls of \<^verbatim>\<open>Mount\<close>
  and \<^verbatim>\<open>Unmount\<close> among them are made on the router, in order, from the state
  \<open>r\<close>; the result is \<open>None\<close> when the router returns something else than what
  is recorded with a call.
\<close>

fun routerAfter ::
  "('b, 'r, 'g, 'e, 'bk) collaborators \<Rightarrow> 'r \<Rightarrow> ('e, 'bk) call list \<Rightarrow> 'r option" where
  "routerAfter env r [] = Some r"
| "routerAfter env r (Mount b p v res # cs) =
     (let (res', r') = router_Mount env r b p v
      in if res' = res then routerAfter env r' cs else None)"
| "routerAfter env r (Unmount p res # cs) =
     (let (res', r') = router_Unmount env r p
      in if res' = res then routerAfter env r' cs else None)"
| "routerAfter env r (Get k # cs) = routerAfter env r cs"
| "routerAfter env r (Put e res # cs) = routerAfter env r cs"
| "routerAfter env r (Printf s # cs) = routerAfter env r cs"

subsection \<open>Collaborators for the examples\<close>

text \<open>
  Modelled from the spec: the storage collaborator
  (\<^verbatim>\<open>get(key) -> bytes-or-absent, error\<close>, \<^verbatim>\<open>put(key, bytes) -> error\<close>)
  and the router (\<^verbatim>\<open>mount\<close> and \<^verbatim>\<open>unmount\<close> of a path prefix, each
  returning an error or nil), in their simplest form, for the examples only; no
  theorem about every barrier or router rests on them. The barrier keeps the
  entries it is given in a list and refuses every write while its flag is set; the
  router keeps the list of its mounts, refuses to mount a path it already has and
  to unmount one it has not; the generator numbers its UUIDs. A backend is the name
  of its type, an error of a collaborator is its message.
\<close>

record exBarrier =
  stored :: "Entry list"
  failing :: bool

type_synonym exRouter = "(string \<times> string \<times> BarrierView) list"

definition exGet :: "exBarrier \<Rightarrow> string \<Rightarrow> string + Entry option" where
  "exGet b k = Inr (find (\<lambda>e. Key e = k) (stored b))"

definition exPut :: "exBarrier \<Rightarrow> Entry \<Rightarrow> string option \<times> exBarrier" where
  "exPut b e =
     (if failing b then (Some ''write failed'', b)
      else (None, b\<lparr>stored := e # filter (\<lambda>x. Key x \<noteq> Key e) (stored b)\<rparr>))"

definition exMount ::
  "exRouter \<Rightarrow> string \<Rightarrow> string \<Rightarrow> BarrierView \<Rightarrow> string option \<times> exRouter" where
  "exMount r b p v =
     (if p \<in> set (map fst r) then (Some ''existing mount'', r) else (None, r @ [(p, b, v)]))"

definition exUnmount :: "exRouter \<Rightarrow> string \<Rightarrow> string option \<times> exRouter" where
  "exUnmount r p =
     (if p \<in> set (map fst r) then (None, filter (\<lambda>m. fst m \<noteq> p) r)
      else (Some ''no such mount'', r))"

definition exUUID :: "nat \<Rightarrow> string \<times> nat" where
  "exUUID n = (''uuid-'' @ replicate n (CHR ''x''), Suc n)"

definition exEnv :: "(exBarrier, exRouter, nat, string, string) collaborators" where
  "exEnv = \<lparr>barrier_Get = exGet, barrier_Put = exPut, router_Mount = exMount,
            router_Unmount = exUnmount, generateUUID = exUUID\<rparr>"

definition exBackends :: "string \<Rightarrow> (conf \<Rightarrow> string + string) option" where
  "exBackends t =
     (if t = ''token'' \<or> t = ''github'' \<or> t = ''ldap'' then Some (\<lambda>cf. Inr t) else None)"

definition emptyHeap :: heap where
  "emptyHeap = \<lparr>entryObjs = [], arrayObjs = [], tableObjs = []\<rparr>"

text \<open>A sealed core over empty storage.\<close>

definition exSealed :: "(exBarrier, exRouter, nat, string, string) Core" where
  "exSealed = \<lparr>auth = None, mem = emptyHeap, barrier = \<lparr>stored = [], failing = False\<rparr>,
               router = [], uuids = 0, credentialBackends = exBackends, calls = []\<rparr>"

text \<open>The record that \<^verbatim>\<open>loadCredentials\<close> writes on empty storage, and the
  core after it: the live table holds the token entry.\<close>

definition exTokenEntry :: AuthEntry where
  "exTokenEntry = \<lparr>Name = ''token'', Type = ''token'',
                   Description = ''token based credentials'', UUID = ''uuid-''\<rparr>"

definition exRecord :: Entry where
  "exRecord = \<lparr>Key = ''core/auth'',
               Value = JSONText (JObject [(''entries'', JArray [JObject
                 [(''name '', JString ''token''), (''type'', JString ''token''),
                  (''description'', JString ''token based credentials''),
                  (''uuid'', JString ''uuid-'')]])])\<rparr>"

definition exLoaded :: "(exBarrier, exRouter, nat, string, string) Core" where
  "exLoaded =
     \<lparr>auth = Some 0,
      mem = \<lparr>entryObjs = [exTokenEntry], arrayObjs = [[Some 0]],
             tableObjs = [\<lparr>Entries = \<lparr>base = Some 0, len = 1\<rparr>\<rparr>]\<rparr>,
      barrier = \<lparr>stored = [exRecord], failing = False\<rparr>,
      router = [], uuids = 1, credentialBackends = exBackends,
      calls = [Get ''core/auth'', Put exRecord None]\<rparr>"

text \<open>A request to enable a backend: the caller's entry, allocated in the store.\<close>

definition request ::
  "('b, 'r, 'g, 'e, 'bk) Core \<Rightarrow> string \<Rightarrow> string
     \<Rightarrow> addr option \<times> ('b, 'r, 'g, 'e, 'bk) Core" where
  "request c n t =
     (let (p, h) = newEntry (mem c) \<lparr>Name = n, Type = t, Description = [], UUID = []\<rparr>
      in (p, c\<lparr>mem := h\<rparr>))"

text \<open>A sealed core whose storage refuses writes, and one whose stored record has
  a number where the type of an entry should be.\<close>

definition exSealedFailing :: "(exBarrier, exRouter, nat, string, string) Core" where
  "exSealedFailing = exSealed\<lparr>barrier := \<lparr>stored = [], failing = True\<rparr>\<rparr>"

definition exBadRecord :: Entry where
  "exBadRecord = \<lparr>Key = ''core/auth'',
                  Value = JSONText (JObject [(''entries'',
                    JArray [JObject [(''type'', JNumber ''5'')]])])\<rparr>"

definition exSealedBad :: "(exBarrier, exRouter, nat, string, string) Core" where
  "exSealedBad = exSealed\<lparr>barrier := \<lparr>stored = [exBadRecord], failing = False\<rparr>\<rparr>"

text \<open>The loaded core over storage that refuses writes, and a caller's entry for
  an \<^verbatim>\<open>ldap\<close> backend in its store (at address 1).\<close>

definition exRefusing :: "(exBarrier, exRouter, nat, string, string) Core" where
  "exRefusing =
     snd (request (exLoaded\<lparr>barrier := \<lparr>stored = [exRecord], failing = True\<rparr>\<rparr>) ''ldap'' ''ldap'')"

text \<open>The loaded core whose router already has a mount at \<^verbatim>\<open>auth/github/\<close>, with
  a caller's entry for a \<^verbatim>\<open>github\<close> backend (at address 1).\<close>

definition exMounted :: "(exBarrier, exRouter, nat, string, string) Core" where
  "exMounted =
     snd (request (exLoaded\<lparr>router := [(''auth/github/'', ''github'', NewBarrierView ''auth/x/'')]\<rparr>)
            ''github'' ''github'')"

text \<open>A core whose live table has the token entry and a \<^verbatim>\<open>github\<close> entry, and
  whose router has no mount.\<close>

definition exGithubEntry :: AuthEntry where
  "exGithubEntry = \<lparr>Name = ''github'', Type = ''github'', Description = [], UUID = ''uuid-x''\<rparr>"

definition exTwo :: "(exBarrier, exRouter, nat, string, string) Core" where
  "exTwo =
     \<lparr>auth = Some 0,
      mem = \<lparr>entryObjs = [exTokenEntry, exGithubEntry], arrayObjs = [[Some 0, Some 1]],
             tableObjs = [\<lparr>Entries = \<lparr>base = Some 0, len = 2\<rparr>\<rparr>]\<rparr>,
      barrier = \<lparr>stored = [], failing = False\<rparr>,
      router = [], uuids = 2, credentialBackends = exBackends, calls = []\<rparr>"

text \<open>The record of the candidate table with the token and the \<^verbatim>\<open>github\<close>
  entry.\<close>

definition exCandidate :: Entry where
  "exCandidate = \<lparr>Key = ''core/auth'',
               Value = JSONText (JObject [(''entries'', JArray
                 [JObject
                   [(''name '', JString ''token''), (''type'', JString ''token''),
                    (''description'', JString ''token based credentials''),
                    (''uuid'', JString ''uuid-'')],
                  JObject
                   [(''name '', JString ''github''), (''type'', JString ''github''),
                    (''description'', JString []), (''uuid'', JString ''uuid-x'')]])])\<rparr>"

text \<open>A core whose live table has the token entry and an entry of a type with no
  registered factory.\<close>

definition exOktaEntry :: AuthEntry where
  "exOktaEntry = \<lparr>Name = ''okta'', Type = ''okta'', Description = [], UUID = ''uuid-x''\<rparr>"

definition exOkta :: "(exBarrier, exRouter, nat, string, string) Core" where
  "exOkta =
     \<lparr>auth = Some 0,
      mem = \<lparr>entryObjs = [exTokenEntry, exOktaEntry], arrayObjs = [[Some 0, Some 1]],
             tableObjs = [\<lparr>Entries = \<lparr>base = Some 0, len = 2\<rparr>\<rparr>]\<rparr>,
      barrier = \<lparr>stored = [], failing = False\<rparr>,
      router = [], uuids = 2, credentialBackends = exBackends, calls = []\<rparr>"

section \<open>Properties\<close>

subsection \<open>The store\<close>

lemma load_None [simp]: "load xs None = None"
  by (simp add: load_def)

lemma load_Some [simp]: "load xs (Some a) = (if a < length xs then Some (xs ! a) else None)"
  by (simp add: load_def)

lemma load_eq_Some: "load xs p = Some x \<longleftrightarrow> (\<exists>a. p = Some a \<and> a < length xs \<and> xs ! a = x)"
  by (cases p) auto

lemma elems_Some:
  "elems h s = Some ps \<Longrightarrow> length ps = len s \<and> (\<forall>i<len s. index h s i = Some (ps ! i))"
  by (auto simp: elems_def index_def split: option.splits if_splits)

lemma wfTableD:
  assumes "wfTable h t"
  obtains ta ps where "t = Some ta" "ta < length (tableObjs h)"
    "elems h (Entries (tableObjs h ! ta)) = Some ps"
    "\<And>p. p \<in> set ps \<Longrightarrow> \<exists>a. p = Some a \<and> a < length (entryObjs h)"
  using assms
  by (auto simp: wfTable_def load_eq_Some list_all_iff split: option.splits)

lemma entry_eta [simp]:
  "\<lparr>Name = Name e, Type = Type e, Description = Description e, UUID = UUID e\<rparr> = e"
  by (cases e) simp

lemmas heap_defs = newEntry_def newArray_def newTable_def nilSlice_def makeSlice_def
  index_def setIndex_def appendSlice_def reslice_def elems_def setUUID_def setEntries_def
  emptyHeap_def

lemmas json_defs = json_Marshal_def encodeEntry_def tag_Entries_def tag_Name_def tag_Type_def
  tag_Description_def tag_UUID_def

lemmas ex_defs = exEnv_def exGet_def exPut_def exMount_def exUnmount_def exUUID_def
  exBackends_def exSealed_def exLoaded_def exRecord_def exTokenEntry_def request_def
  exSealedFailing_def exBadRecord_def exSealedBad_def exRefusing_def exMounted_def
  exGithubEntry_def exTwo_def exCandidate_def exOktaEntry_def exOkta_def

text \<open>The loaded core of the examples is what \<^verbatim>\<open>loadCredentials\<close> makes of
  the sealed core over empty storage.\<close>

lemma exLoaded_is_loaded: "loadCredentials exEnv exSealed = Some (None, exLoaded)"
  by (simp add: loadCredentials_def restoreOrDefault_def defaultAuthTable_def persistAuth_def
      called_def coreAuthConfigPath_def heap_defs json_defs ex_defs Let_def)

subsection \<open>The constants\<close>

text \<open>
  C7, as the claim states it, fails: the mount prefix and the prefix of the barrier
  views are the same string.
\<close>

theorem prefixes_same_string: "credentialMountPrefix = credentialBarrierPrefix"
  by (simp add: credentialMountPrefix_def credentialBarrierPrefix_def)

text \<open>
  C7, amended: the prefix of the router paths and the prefix of the barrier views
  are two constants, declared apart and used apart, and both have the value
  \<^verbatim>\<open>auth/\<close>.
\<close>

theorem prefixes_both_auth:
  "credentialMountPrefix = ''auth/'' \<and> credentialBarrierPrefix = ''auth/''"
  by (simp add: credentialMountPrefix_def credentialBarrierPrefix_def)

subsection \<open>The persisted form\<close>

text \<open>
  C6 at the default table: the record that \<^verbatim>\<open>persistAuth\<close> writes names the
  first field of an entry \<^verbatim>\<open>name\<close> followed by a space, as the tag of line 51
  has it; the three other field names are clean.
\<close>

theorem marshal_default_table:
  "json_Marshal (mem exLoaded) (auth exLoaded) =
     Some (JSONText (JObject [(''entries'', JArray [JObject
       [(''name '', JString ''token''), (''type'', JString ''token''),
        (''description'', JString ''token based credentials''),
        (''uuid'', JString ''uuid-'')]])]))"
  by (simp add: json_defs ex_defs heap_defs)

subsection \<open>loadCredentials\<close>

text \<open>
  C10: when the read succeeds and finds no record while a live table is set,
  \<^verbatim>\<open>loadCredentials\<close> returns nil and changes nothing: the state after it is
  the state before it with the one call of \<^verbatim>\<open>Get\<close> recorded; the live table
  pointer and the store are the same, nothing is allocated, and nothing is put.
\<close>

theorem load_keeps_live_table:
  assumes "barrier_Get env (barrier c) coreAuthConfigPath = Inr None"
    and "auth c \<noteq> None"
  shows "loadCredentials env c = Some (None, called c (Get coreAuthConfigPath))"
  using assms by (simp add: loadCredentials_def restoreOrDefault_def called_def)

text \<open>C10 on the loaded core over storage that has lost its record.\<close>

theorem load_keeps_live_table_witness:
  "barrier_Get exEnv (barrier (exLoaded\<lparr>barrier := \<lparr>stored = [], failing = False\<rparr>\<rparr>))
       coreAuthConfigPath = Inr None \<and>
   auth (exLoaded\<lparr>barrier := \<lparr>stored = [], failing = False\<rparr>\<rparr>) = Some 0 \<and>
   loadCredentials exEnv (exLoaded\<lparr>barrier := \<lparr>stored = [], failing = False\<rparr>\<rparr>) =
     Some (None, called (exLoaded\<lparr>barrier := \<lparr>stored = [], failing = False\<rparr>\<rparr>)
                   (Get coreAuthConfigPath))"
  using load_keeps_live_table
    [of exEnv "exLoaded\<lparr>barrier := \<lparr>stored = [], failing = False\<rparr>\<rparr>"]
  by (simp add: ex_defs)

subsection \<open>Clone\<close>

text \<open>
  The loop of \<^verbatim>\<open>Clone\<close> in closed form. The table \<open>ta\<close> is the copy under
  construction, with an array \<open>d\<close> of its own of \<open>n\<close> cells; \<open>src\<close> is the slice
  that is copied. From iteration \<open>i\<close> on, the loop allocates one entry for each
  remaining element and stores the new pointers in the cells \<open>i\<close> to \<open>n - 1\<close>.
\<close>

lemma CloneLoop_closed:
  assumes "ta < length (tableObjs h)"
    and "Entries (tableObjs h ! ta) = \<lparr>base = Some d, len = n\<rparr>"
    and "d < length (arrayObjs h)" and "length (arrayObjs h ! d) = n"
    and "elems h src = Some ps" and "len src = n" and "base src \<noteq> Some d"
    and "\<forall>p\<in>set ps. \<exists>a. p = Some a \<and> a < length (entryObjs h)"
    and "i \<le> n"
  shows "CloneLoop h src (Some ta) i =
     Some (h\<lparr>entryObjs := entryObjs h @ map (\<lambda>p. entryObjs h ! the p) (drop i ps),
             arrayObjs := (arrayObjs h)[d := take i (arrayObjs h ! d) @
                map Some [length (entryObjs h) ..< length (entryObjs h) + (n - i)]]\<rparr>)"
  using assms
proof (induction "n - i" arbitrary: h i)
  case 0
  then have "i = n" by simp
  with 0 show ?case
    by (subst CloneLoop.simps) (simp add: elems_Some)
next
  case (Suc k)
  then have i: "i < n" by simp
  have lps: "length ps = n" using elems_Some[OF Suc.prems(5)] Suc.prems(6) by simp
  have idx: "index h src i = Some (ps ! i)" using elems_Some[OF Suc.prems(5)] Suc.prems(6) i by simp
  obtain a where a: "ps ! i = Some a" "a < length (entryObjs h)"
    using Suc.prems(8) i lps by (metis nth_mem)
  define E where "E = length (entryObjs h)"
  define h1 where "h1 = h\<lparr>entryObjs := entryObjs h @ [entryObjs h ! a]\<rparr>"
  define h2 where "h2 = h1\<lparr>arrayObjs := (arrayObjs h)[d := (arrayObjs h ! d)[i := Some E]]\<rparr>"
  have c1: "AuthEntry_Clone h (Some a) = Some (Some E, h1)"
    using a by (simp add: AuthEntry_Clone_def newEntry_def h1_def E_def)
  have s1: "setIndex h1 (Entries (tableObjs h1 ! ta)) i (Some E) = Some h2"
    using Suc.prems i by (simp add: setIndex_def h1_def h2_def)
  have step: "CloneLoop h src (Some ta) i = CloneLoop h2 src (Some ta) (i + 1)"
    using i idx a c1 s1 Suc.prems(1,6)
    by (subst CloneLoop.simps) (simp add: h1_def)
  have el2: "elems h2 src = Some ps"
    using Suc.prems(5,7) by (auto simp: elems_def h2_def h1_def split: option.splits if_splits)
  have IH: "CloneLoop h2 src (Some ta) (i + 1) =
     Some (h2\<lparr>entryObjs := entryObjs h2 @ map (\<lambda>p. entryObjs h2 ! the p) (drop (i + 1) ps),
             arrayObjs := (arrayObjs h2)[d := take (i + 1) (arrayObjs h2 ! d) @
                map Some [length (entryObjs h2) ..< length (entryObjs h2) + (n - (i + 1))]]\<rparr>)"
  proof (rule Suc.hyps(1))
    show "k = n - (i + 1)" using Suc.hyps(2) by simp
    show "ta < length (tableObjs h2)" using Suc.prems by (simp add: h2_def h1_def)
    show "Entries (tableObjs h2 ! ta) = \<lparr>base = Some d, len = n\<rparr>"
      using Suc.prems by (simp add: h2_def h1_def)
    show "d < length (arrayObjs h2)" using Suc.prems by (simp add: h2_def h1_def)
    show "length (arrayObjs h2 ! d) = n" using Suc.prems by (simp add: h2_def h1_def)
    show "elems h2 src = Some ps" by (rule el2)
    show "len src = n" by (rule Suc.prems)
    show "base src \<noteq> Some d" by (rule Suc.prems)
    show "\<forall>p\<in>set ps. \<exists>a. p = Some a \<and> a < length (entryObjs h2)"
      using Suc.prems(8) by (fastforce simp: h2_def h1_def)
    show "i + 1 \<le> n" using i by simp
  qed
  have m: "map (\<lambda>p. entryObjs h2 ! the p) (drop (i + 1) ps) = map (\<lambda>p. entryObjs h ! the p) (drop (i + 1) ps)"
  proof (rule map_cong[OF refl])
    fix p assume "p \<in> set (drop (i + 1) ps)"
    then have "p \<in> set ps" by (rule in_set_dropD)
    then obtain b where "p = Some b" "b < length (entryObjs h)" using Suc.prems(8) by blast
    then show "entryObjs h2 ! the p = entryObjs h ! the p"
      by (simp add: h2_def h1_def nth_append)
  qed
  have dr: "drop i ps = Some a # drop (i + 1) ps"
    using i lps a Cons_nth_drop_Suc[of i ps] by simp
  have up: "[E ..< E + (n - i)] = E # [E + 1 ..< E + 1 + (n - (i + 1))]"
  proof -
    have "[E ..< E + (n - i)] = E # [Suc E ..< E + (n - i)]"
      using i by (intro upt_conv_Cons) simp
    moreover have "E + 1 + (n - (i + 1)) = E + (n - i)" using i by simp
    ultimately show ?thesis by (simp only: Suc_eq_plus1)
  qed
  have tk: "take (i + 1) ((arrayObjs h ! d)[i := Some E]) = take i (arrayObjs h ! d) @ [Some E]"
    using i Suc.prems(4) by (simp add: take_Suc_conv_app_nth)
  show ?case
    unfolding step IH m
    using Suc.prems(3) dr up tk
    by (simp add: h2_def h1_def E_def)
qed

lemma Clone_closed:
  assumes "ta < length (tableObjs h)"
    and "elems h (Entries (tableObjs h ! ta)) = Some ps"
    and "\<forall>p\<in>set ps. \<exists>a. p = Some a \<and> a < length (entryObjs h)"
  shows "AuthTable_Clone h (Some ta) =
     Some (Some (length (tableObjs h)),
           h\<lparr>entryObjs := entryObjs h @ map (\<lambda>p. entryObjs h ! the p) ps,
             arrayObjs := arrayObjs h @ [map Some [length (entryObjs h) ..< length (entryObjs h) + length ps]],
             tableObjs := tableObjs h @ [\<lparr>Entries = \<lparr>base = Some (length (arrayObjs h)), len = length ps\<rparr>\<rparr>]\<rparr>)"
proof -
  define src where "src = Entries (tableObjs h ! ta)"
  define n where "n = len src"
  have lps: "length ps = n" using elems_Some[OF assms(2)] by (simp add: src_def n_def)
  define h2 where "h2 = h\<lparr>arrayObjs := arrayObjs h @ [replicate n None],
     tableObjs := tableObjs h @ [\<lparr>Entries = \<lparr>base = Some (length (arrayObjs h)), len = n\<rparr>\<rparr>]\<rparr>"
  have nb: "base src \<noteq> Some (length (arrayObjs h))"
    using assms(2) by (auto simp: elems_def src_def split: option.splits if_splits)
  have el: "elems h2 src = Some ps"
    using assms(2) by (auto simp: elems_def src_def h2_def nth_append split: option.splits if_splits)
  have loop: "CloneLoop h2 src (Some (length (tableObjs h))) 0 =
     Some (h2\<lparr>entryObjs := entryObjs h2 @ map (\<lambda>p. entryObjs h2 ! the p) (drop 0 ps),
             arrayObjs := (arrayObjs h2)[length (arrayObjs h) := take 0 (arrayObjs h2 ! length (arrayObjs h)) @
                map Some [length (entryObjs h2) ..< length (entryObjs h2) + (n - 0)]]\<rparr>)"
    by (rule CloneLoop_closed[where n = n])
       (use assms(3) el nb in \<open>simp_all add: h2_def n_def\<close>)
  show ?thesis
    using assms(1) loop
    by (simp add: AuthTable_Clone_def makeSlice_def newArray_def newTable_def Let_def
         src_def[symmetric] n_def[symmetric] h2_def lps)
qed

subsection \<open>Snapshots and names\<close>

lemma snapshot_Some:
  "ta < length (tableObjs h) \<Longrightarrow> elems h (Entries (tableObjs h ! ta)) = Some ps \<Longrightarrow>
   snapshot h (Some ta) = Some (tableObjs h ! ta, ps, map (load (entryObjs h)) ps)"
  by (simp add: snapshot_def)

lemma nameInUse_wf:
  "\<forall>p\<in>set ps. \<exists>a. p = Some a \<and> a < length (entryObjs h) \<Longrightarrow>
   nameInUse h ps n = Some (\<exists>p\<in>set ps. \<exists>e. load (entryObjs h) p = Some e \<and> Name e = n)"
  by (induction ps) auto

lemma namesOf_wf:
  assumes "ta < length (tableObjs h)" "elems h (Entries (tableObjs h ! ta)) = Some ps"
    and "\<forall>p\<in>set ps. \<exists>a. p = Some a \<and> a < length (entryObjs h)"
  shows "n \<in> set (namesOf h (Some ta)) \<longleftrightarrow>
     (\<exists>p\<in>set ps. \<exists>e. load (entryObjs h) p = Some e \<and> Name e = n)"
  using assms
  by (auto simp: namesOf_def entriesOf_def snapshot_def split: option.splits) metis+

lemma newEntries_closed:
  "newEntries h es = (ps, h') \<Longrightarrow>
     arrayObjs h' = arrayObjs h \<and> tableObjs h' = tableObjs h \<and>
     (\<exists>xs. entryObjs h' = entryObjs h @ xs) \<and> length ps = length es \<and>
     map (load (entryObjs h')) ps = es"
proof (induction h es arbitrary: ps h' rule: newEntries.induct)
  case (1 h)
  then show ?case by simp
next
  case (2 h es)
  then show ?case by (auto split: prod.splits)
next
  case (3 h e es)
  obtain qs h2 where r: "newEntries (snd (newEntry h e)) es = (qs, h2)" by fastforce
  have IH: "arrayObjs h2 = arrayObjs (snd (newEntry h e)) \<and> tableObjs h2 = tableObjs (snd (newEntry h e)) \<and>
     (\<exists>xs. entryObjs h2 = entryObjs (snd (newEntry h e)) @ xs) \<and> length qs = length es \<and>
     map (load (entryObjs h2)) qs = es"
    by (rule "3.IH"[OF _ refl r]) (simp add: newEntry_def)
  from "3.prems" r have ps: "ps = Some (length (entryObjs h)) # qs" and h': "h' = h2"
    by (auto simp: newEntry_def split: prod.splits)
  from IH show ?case
    by (auto simp: ps h' newEntry_def nth_append)
qed

subsection \<open>enableCredential: the checks\<close>

text \<open>
  C4, as the claim states it, fails: the name is checked before the type (lines
  72-87), so an entry of type \<^verbatim>\<open>token\<close> with an empty name is refused with
  \<^verbatim>\<open>backend name must be specified\<close>, and one whose name is in the table
  with \<^verbatim>\<open>name already in use\<close>.
\<close>

theorem enable_token_empty_name:
  "(let (p, c) = request exLoaded [] ''token''
    in map_option fst (enableCredential exEnv c p)) =
     Some (Some (errorString ''backend name must be specified'')) \<and>
   (let (p, c) = request exLoaded ''token'' ''token''
    in map_option fst (enableCredential exEnv c p)) =
     Some (Some (errorString ''name already in use''))"
  by (simp add: enableCredential_def heap_defs ex_defs Let_def)

text \<open>
  C4, amended: on a well-formed live table, \<^verbatim>\<open>enableCredential\<close> refuses
  every entry of type \<^verbatim>\<open>token\<close> and leaves the whole state (live table,
  store, barrier, router, calls) as it was; the error is
  \<^verbatim>\<open>token credential backend cannot be instantiated\<close> when the name is not
  empty and not in the table, \<^verbatim>\<open>backend name must be specified\<close> when the
  name is empty, and \<^verbatim>\<open>name already in use\<close> when the table has the name.
\<close>

theorem enable_token_rejected:
  assumes "wfTable (mem c) (auth c)"
    and "load (entryObjs (mem c)) entry = Some e"
    and "Type e = ''token''"
  shows "enableCredential env c entry =
     Some (Some (errorString
       (if Name e = [] then ''backend name must be specified''
        else if Name e \<in> set (namesOf (mem c) (auth c)) then ''name already in use''
        else ''token credential backend cannot be instantiated'')), c)"
proof -
  from assms(1) obtain ta ps where t: "auth c = Some ta" "ta < length (tableObjs (mem c))"
    "elems (mem c) (Entries (tableObjs (mem c) ! ta)) = Some ps"
    and v: "\<forall>p\<in>set ps. \<exists>a. p = Some a \<and> a < length (entryObjs (mem c))"
    by (auto elim!: wfTableD)
  note n = nameInUse_wf[OF v, of "Name e"] namesOf_wf[OF t(2,3) v, of "Name e"]
  show ?thesis
    using assms(2,3) t n by (auto simp add: enableCredential_def)
qed

text \<open>The amended C4 on a request for the name \<^verbatim>\<open>tok2\<close>.\<close>

theorem enable_token_rejected_witness:
  "wfTable (mem (snd (request exLoaded ''tok2'' ''token'')))
           (auth (snd (request exLoaded ''tok2'' ''token''))) \<and>
   load (entryObjs (mem (snd (request exLoaded ''tok2'' ''token'')))) (Some 1) =
     Some \<lparr>Name = ''tok2'', Type = ''token'', Description = [], UUID = []\<rparr> \<and>
   enableCredential exEnv (snd (request exLoaded ''tok2'' ''token'')) (Some 1) =
     Some (Some (errorString ''token credential backend cannot be instantiated''),
           snd (request exLoaded ''tok2'' ''token''))"
proof -
  let ?c = "snd (request exLoaded ''tok2'' ''token'')"
  let ?e = "\<lparr>Name = ''tok2'', Type = ''token'', Description = [], UUID = []\<rparr>"
  have a: "wfTable (mem ?c) (auth ?c)"
    by (simp add: wfTable_def heap_defs ex_defs)
  have b: "load (entryObjs (mem ?c)) (Some 1) = Some ?e"
    by (simp add: heap_defs ex_defs)
  have c: "Type ?e = ''token''" by simp
  have d: "set (namesOf (mem ?c) (auth ?c)) = {''token''}"
    by (simp add: namesOf_def entriesOf_def snapshot_def heap_defs ex_defs)
  from enable_token_rejected[OF a b c, of exEnv] a b d show ?thesis by simp
qed

subsection \<open>loadCredentials on empty storage\<close>

text \<open>
  C5, as the claim states it, fails: on storage with no record and with no live
  table set, \<^verbatim>\<open>loadCredentials\<close> returns \<^verbatim>\<open>loadAuthFailed\<close> when the barrier
  refuses the write of the default table (lines 182-184).
\<close>

theorem load_default_fails_when_put_fails:
  "barrier_Get exEnv (barrier exSealedFailing) coreAuthConfigPath = Inr None \<and>
   auth exSealedFailing = None \<and>
   map_option fst (loadCredentials exEnv exSealedFailing) = Some (Some loadAuthFailed)"
  by (simp add: loadCredentials_def restoreOrDefault_def defaultAuthTable_def persistAuth_def
      called_def coreAuthConfigPath_def loadAuthFailed_def heap_defs json_defs ex_defs Let_def)

text \<open>
  C5, amended: when no record exists at the auth configuration key, no live table is
  set and the write of the default table succeeds, \<^verbatim>\<open>loadCredentials\<close>
  succeeds; the live table is a table allocated by the call and holds exactly one
  entry, with name and type \<^verbatim>\<open>token\<close> and the UUID that the generator
  returned in this call; the calls made are the read and one successful
  \<^verbatim>\<open>Put\<close> of the record of that table at \<^verbatim>\<open>core/auth\<close>.
\<close>

theorem load_default_table:
  assumes "barrier_Get env (barrier c) coreAuthConfigPath = Inr None"
    and "auth c = None"
    and "fst (barrier_Put env (barrier c) (defaultRecord (fst (generateUUID env (uuids c))))) = None"
  shows "\<exists>c'. loadCredentials env c = Some (None, c') \<and>
     auth c' = Some (length (tableObjs (mem c))) \<and>
     entriesOf (mem c') (auth c') = Some [Some (tokenEntry (fst (generateUUID env (uuids c))))] \<and>
     uuids c' = snd (generateUUID env (uuids c)) \<and>
     newCalls c c' = [Get coreAuthConfigPath,
                      Put (defaultRecord (fst (generateUUID env (uuids c)))) None] \<and>
     barrier c' = snd (barrier_Put env (barrier c)
                         (defaultRecord (fst (generateUUID env (uuids c)))))"
proof -
  obtain u g where ug: "generateUUID env (uuids c) = (u, g)" by fastforce
  obtain r b where rb: "barrier_Put env (barrier c) (defaultRecord u) = (r, b)" by fastforce
  with assms(3) ug have r: "r = None" by simp
  show ?thesis
    using assms(1,2) ug rb r
    by (simp add: loadCredentials_def restoreOrDefault_def defaultAuthTable_def persistAuth_def
      called_def heap_defs json_Marshal_def defaultRecord_def tokenEntry_def Let_def
      entriesOf_def snapshot_def newCalls_def)
qed

text \<open>The amended C5 on the sealed core over empty storage.\<close>

theorem load_default_table_witness:
  "barrier_Get exEnv (barrier exSealed) coreAuthConfigPath = Inr None \<and>
   auth exSealed = None \<and>
   fst (barrier_Put exEnv (barrier exSealed)
         (defaultRecord (fst (generateUUID exEnv (uuids exSealed))))) = None \<and>
   (\<exists>c'. loadCredentials exEnv exSealed = Some (None, c') \<and>
     auth c' = Some (length (tableObjs (mem exSealed))) \<and>
     entriesOf (mem c') (auth c') =
       Some [Some (tokenEntry (fst (generateUUID exEnv (uuids exSealed))))] \<and>
     uuids c' = snd (generateUUID exEnv (uuids exSealed)) \<and>
     newCalls exSealed c' = [Get coreAuthConfigPath,
        Put (defaultRecord (fst (generateUUID exEnv (uuids exSealed)))) None] \<and>
     barrier c' = snd (barrier_Put exEnv (barrier exSealed)
        (defaultRecord (fst (generateUUID exEnv (uuids exSealed))))))"
proof -
  have a: "barrier_Get exEnv (barrier exSealed) coreAuthConfigPath = Inr None"
    by (simp add: ex_defs)
  have b: "auth exSealed = None" by (simp add: ex_defs)
  have c: "fst (barrier_Put exEnv (barrier exSealed)
         (defaultRecord (fst (generateUUID exEnv (uuids exSealed))))) = None"
    by (simp add: ex_defs)
  from load_default_table[OF a b c] a b c show ?thesis by blast
qed

subsection \<open>loadCredentials on a record that does not decode\<close>

text \<open>
  C9, as the claim states it, fails: the stored record
  \<^verbatim>\<open>{"entries":[{"type":5}]}\<close> does not decode (a number stands where a string
  is expected), \<^verbatim>\<open>loadCredentials\<close> returns \<^verbatim>\<open>loadAuthFailed\<close>, and the
  live table holds one entry, the one the decoder had allocated when it met the
  number.
\<close>

theorem load_bad_record_keeps_entry:
  "barrier_Get exEnv (barrier exSealedBad) coreAuthConfigPath = Inr (Some exBadRecord) \<and>
   decodeFails (Value exBadRecord) \<and>
   map_option (\<lambda>(r, c'). (r, entriesOf (mem c') (auth c'))) (loadCredentials exEnv exSealedBad) =
     Some (Some loadAuthFailed, Some [Some zeroEntry])"
  by (simp add: loadCredentials_def json_Unmarshal_def decodeTable_def decodeSlice_def
      decodePtr_def decodeStruct_def decodeField_def decodeString_def isLetter_def upper_def
      decodeFails_def zeroEntry_def
      called_def coreAuthConfigPath_def loadAuthFailed_def heap_defs json_defs ex_defs Let_def
      entriesOf_def snapshot_def)

text \<open>
  C9, amended: when a record exists at the auth configuration key and its bytes do
  not decode into a table, \<^verbatim>\<open>loadCredentials\<close> returns
  \<^verbatim>\<open>loadAuthFailed\<close>, and the live table is a table allocated by this call
  (its address was not in use before, so it is neither absent nor the table of
  before the call) that holds what the decoder stored before it reported the
  error: no entry when the bytes are no JSON text, and the entries decoded so far
  when a value of the wrong kind was met.
\<close>

theorem load_undecodable_record:
  assumes "barrier_Get env (barrier c) coreAuthConfigPath = Inr (Some raw)"
    and "decodeFails (Value raw)"
  shows "\<exists>c'. loadCredentials env c = Some (Some loadAuthFailed, c') \<and>
     auth c' = Some (length (tableObjs (mem c))) \<and>
     load (tableObjs (mem c)) (auth c') = None \<and>
     entriesOf (mem c') (auth c') = Some (decoded (Value raw)) \<and>
     (\<forall>s. Value raw = NotJSON s \<longrightarrow> entriesOf (mem c') (auth c') = Some [])"
proof (cases "Value raw")
  case (NotJSON s)
  then show ?thesis
    using assms
    by (simp add: loadCredentials_def json_Unmarshal_def called_def heap_defs Let_def
        entriesOf_def snapshot_def decoded_def)
next
  case (JSONText v)
  obtain val bad where d: "decodeTable None v = (val, bad)" by fastforce
  with assms(2) JSONText have bad: "bad" by (simp add: decodeFails_def)
  define h where "h = mem c\<lparr>tableObjs := tableObjs (mem c) @ [\<lparr>Entries = nilSlice\<rparr>]\<rparr>"
  show ?thesis
  proof (cases val)
    case None
    then show ?thesis
      using assms(1) JSONText d bad
      by (simp add: loadCredentials_def json_Unmarshal_def called_def heap_defs Let_def
          entriesOf_def snapshot_def decoded_def)
  next
    case (Some es)
    obtain ps h1 where n: "newEntries h es = (ps, h1)" by fastforce
    from newEntries_closed[OF n]
    have fr: "arrayObjs h1 = arrayObjs h" "tableObjs h1 = tableObjs h"
      "length ps = length es" "map (load (entryObjs h1)) ps = es"
      by auto
    show ?thesis
      using assms(1) JSONText d bad Some n fr
      by (simp add: loadCredentials_def json_Unmarshal_def called_def newTable_def newArray_def
          h_def[symmetric] Let_def)
         (simp add: h_def entriesOf_def snapshot_def elems_def decoded_def)
  qed
qed

text \<open>The amended C9 on the stored record with a number for the type.\<close>

theorem load_undecodable_record_witness:
  "barrier_Get exEnv (barrier exSealedBad) coreAuthConfigPath = Inr (Some exBadRecord) \<and>
   decodeFails (Value exBadRecord) \<and>
   (\<exists>c'. loadCredentials exEnv exSealedBad = Some (Some loadAuthFailed, c') \<and>
     auth c' = Some (length (tableObjs (mem exSealedBad))) \<and>
     load (tableObjs (mem exSealedBad)) (auth c') = None \<and>
     entriesOf (mem c') (auth c') = Some (decoded (Value exBadRecord)))"
proof -
  have a: "barrier_Get exEnv (barrier exSealedBad) coreAuthConfigPath = Inr (Some exBadRecord)"
    by (simp add: ex_defs coreAuthConfigPath_def)
  have b: "decodeFails (Value exBadRecord)"
    by (simp add: ex_defs decodeFails_def decodeTable_def decodeSlice_def
      decodePtr_def decodeStruct_def decodeField_def decodeString_def isLetter_def upper_def
      json_defs)
  from load_undecodable_record[OF a b] a b show ?thesis by blast
qed

subsection \<open>Frames\<close>

text \<open>A table looks the same in two stores when its header, its array and the
  entries it points to are the same in both.\<close>

lemma elems_frame:
  assumes "elems h s = Some ps"
    and "\<forall>b<length (arrayObjs h). b < length (arrayObjs h') \<and> arrayObjs h' ! b = arrayObjs h ! b"
  shows "elems h' s = Some ps"
  using assms by (auto simp: elems_def split: option.splits if_splits)

lemma snapshot_frame:
  assumes "ta < length (tableObjs h)" and "elems h (Entries (tableObjs h ! ta)) = Some ps"
    and "ta < length (tableObjs h')" and "tableObjs h' ! ta = tableObjs h ! ta"
    and "\<forall>b<length (arrayObjs h). b < length (arrayObjs h') \<and> arrayObjs h' ! b = arrayObjs h ! b"
    and "\<forall>p\<in>set ps. load (entryObjs h') p = load (entryObjs h) p"
  shows "snapshot h' (Some ta) = snapshot h (Some ta)"
proof -
  have "elems h' (Entries (tableObjs h ! ta)) = Some ps"
    by (rule elems_frame[OF assms(2,5)])
  with assms show ?thesis by (simp add: snapshot_def)
qed

subsection \<open>Clone is a deep copy\<close>

text \<open>
  C8: for every well-formed table \<open>t\<close>, \<^verbatim>\<open>t.Clone()\<close> returns a table \<open>at\<close>
  whose slice has the length of \<open>t\<close>'s and whose entry at each index has the name,
  type, description and UUID of \<open>t\<close>'s entry at that index. The copy shares nothing
  with \<open>t\<close>: the table, the array of its slice and every entry are at addresses
  that were not in use before the call, so no pointer of the copy is a pointer of
  \<open>t\<close>. Hence \<open>t\<close> is unchanged by the call, and by any later write to an entry of
  the copy (\<open>setEntry\<close>), to a cell of the copy's slice (\<open>setIndex\<close>), by an
  append to the copy's slice, and by an assignment to the copy's
  \<^verbatim>\<open>Entries\<close> field (\<open>setEntries\<close>).
\<close>

theorem Clone_deep_copy:
  assumes "wfTable h t"
  shows "\<exists>at h' tab ps tab' ps'.
     AuthTable_Clone h t = Some (at, h') \<and>
     snapshot h t = Some (tab, ps, map (load (entryObjs h)) ps) \<and>
     snapshot h' at = Some (tab', ps', map (load (entryObjs h')) ps') \<and>
     length ps' = length ps \<and>
     (\<forall>i<length ps. \<exists>e e'.
        load (entryObjs h) (ps ! i) = Some e \<and> load (entryObjs h') (ps' ! i) = Some e' \<and>
        Name e' = Name e \<and> Type e' = Type e \<and> Description e' = Description e \<and>
        UUID e' = UUID e) \<and>
     at \<noteq> t \<and> load (tableObjs h) at = None \<and>
     base (Entries tab') \<noteq> base (Entries tab) \<and>
     load (arrayObjs h) (base (Entries tab')) = None \<and>
     set ps' \<inter> set ps = {} \<and> (\<forall>p\<in>set ps'. load (entryObjs h) p = None) \<and>
     snapshot h' t = snapshot h t \<and>
     (\<forall>p e h''. p \<in> set ps' \<longrightarrow> setEntry h' p e = Some h'' \<longrightarrow> snapshot h'' t = snapshot h t) \<and>
     (\<forall>i p h''. setIndex h' (Entries tab') i p = Some h'' \<longrightarrow> snapshot h'' t = snapshot h t) \<and>
     (\<forall>p s h''. appendSlice h' (Entries tab') p = Some (s, h'') \<longrightarrow>
        snapshot h'' t = snapshot h t) \<and>
     (\<forall>s h''. setEntries h' at s = Some h'' \<longrightarrow> snapshot h'' t = snapshot h t)"
proof -
  from assms obtain ta ps where t: "t = Some ta" and ta: "ta < length (tableObjs h)"
    and el: "elems h (Entries (tableObjs h ! ta)) = Some ps"
    and v: "\<forall>p\<in>set ps. \<exists>a. p = Some a \<and> a < length (entryObjs h)"
    by (auto elim!: wfTableD)
  define E where "E = length (entryObjs h)"
  define A where "A = length (arrayObjs h)"
  define T where "T = length (tableObjs h)"
  define n where "n = length ps"
  define ps' where "ps' = map Some [E ..< E + n]"
  define tab' where "tab' = \<lparr>Entries = \<lparr>base = Some A, len = n\<rparr>\<rparr>"
  define h' where "h' = h\<lparr>entryObjs := entryObjs h @ map (\<lambda>p. entryObjs h ! the p) ps,
             arrayObjs := arrayObjs h @ [ps'],
             tableObjs := tableObjs h @ [tab']\<rparr>"
  have clone: "AuthTable_Clone h t = Some (Some T, h')"
    unfolding t h'_def tab'_def ps'_def E_def A_def T_def n_def
    by (rule Clone_closed[OF ta el v])
  have s0: "snapshot h t = Some (tableObjs h ! ta, ps, map (load (entryObjs h)) ps)"
    unfolding t by (rule snapshot_Some[OF ta el])
  have el': "elems h' (Entries tab') = Some ps'"
    by (simp add: elems_def h'_def tab'_def A_def ps'_def)
  have s1: "snapshot h' (Some T) = Some (tab', ps', map (load (entryObjs h')) ps')"
    using el' by (simp add: snapshot_def h'_def T_def)
  have len: "length ps' = length ps" by (simp add: ps'_def n_def)
  have copy: "\<forall>i<length ps. \<exists>e e'.
        load (entryObjs h) (ps ! i) = Some e \<and> load (entryObjs h') (ps' ! i) = Some e' \<and>
        Name e' = Name e \<and> Type e' = Type e \<and> Description e' = Description e \<and>
        UUID e' = UUID e"
  proof (intro allI impI)
    fix i assume i: "i < length ps"
    then obtain a where a: "ps ! i = Some a" "a < length (entryObjs h)"
      using v by (metis nth_mem)
    have "load (entryObjs h') (ps' ! i) = Some (entryObjs h ! a)"
      using i a by (simp add: ps'_def h'_def n_def E_def nth_append)
    with a show "\<exists>e e'.
        load (entryObjs h) (ps ! i) = Some e \<and> load (entryObjs h') (ps' ! i) = Some e' \<and>
        Name e' = Name e \<and> Type e' = Type e \<and> Description e' = Description e \<and>
        UUID e' = UUID e" by simp
  qed
  have fresh_t: "Some T \<noteq> t" "load (tableObjs h) (Some T) = None"
    using ta by (auto simp: t T_def)
  have bs: "base (Entries tab') \<noteq> base (Entries (tableObjs h ! ta))"
    using el by (auto simp: tab'_def A_def elems_def split: option.splits if_splits)
  have fresh_a: "load (arrayObjs h) (base (Entries tab')) = None"
    by (simp add: tab'_def A_def)
  have fresh_e: "\<forall>p\<in>set ps'. load (entryObjs h) p = None"
    by (auto simp: ps'_def E_def)
  have disj: "set ps' \<inter> set ps = {}"
    using v fresh_e by fastforce
  have pres: "\<forall>b<length (arrayObjs h). b < length (arrayObjs h') \<and> arrayObjs h' ! b = arrayObjs h ! b"
    by (simp add: h'_def nth_append)
  have prese: "\<forall>p\<in>set ps. load (entryObjs h') p = load (entryObjs h) p"
    using v by (auto simp: h'_def nth_append)
  have keep: "snapshot h' t = snapshot h t"
    unfolding t by (rule snapshot_frame[OF ta el _ _ pres prese])
      (use ta in \<open>simp_all add: h'_def nth_append\<close>)
  have m1: "snapshot h'' t = snapshot h t" if "p \<in> set ps'" "setEntry h' p e = Some h''" for p e h''
  proof -
    from that(1) obtain k where p: "p = Some k" "E \<le> k" by (auto simp: ps'_def)
    from that(2) p have h'': "h'' = h'\<lparr>entryObjs := (entryObjs h')[k := e]\<rparr>"
      by (simp add: setEntry_def split: if_splits)
    show ?thesis unfolding t
    proof (rule snapshot_frame[OF ta el])
      show "ta < length (tableObjs h'')" using ta by (simp add: h'' h'_def)
      show "tableObjs h'' ! ta = tableObjs h ! ta" using ta by (simp add: h'' h'_def nth_append)
      show "\<forall>b<length (arrayObjs h). b < length (arrayObjs h'') \<and> arrayObjs h'' ! b = arrayObjs h ! b"
        using pres by (simp add: h'')
      show "\<forall>q\<in>set ps. load (entryObjs h'') q = load (entryObjs h) q"
        using v p by (auto simp: h'' h'_def nth_append E_def)
    qed
  qed
  have m2: "snapshot h'' t = snapshot h t" if "setIndex h' (Entries tab') i p = Some h''" for i p h''
  proof -
    from that have h'': "h'' = h'\<lparr>arrayObjs := (arrayObjs h')[A := (arrayObjs h' ! A)[i := p]]\<rparr>"
      by (simp add: setIndex_def tab'_def split: if_splits)
    show ?thesis unfolding t
    proof (rule snapshot_frame[OF ta el])
      show "ta < length (tableObjs h'')" using ta by (simp add: h'' h'_def)
      show "tableObjs h'' ! ta = tableObjs h ! ta" using ta by (simp add: h'' h'_def nth_append)
      show "\<forall>b<length (arrayObjs h). b < length (arrayObjs h'') \<and> arrayObjs h'' ! b = arrayObjs h ! b"
        by (simp add: h'' h'_def A_def nth_append)
      show "\<forall>q\<in>set ps. load (entryObjs h'') q = load (entryObjs h) q"
        using prese by (simp add: h'')
    qed
  qed
  have m3: "snapshot h'' t = snapshot h t" if "appendSlice h' (Entries tab') p = Some (s, h'')" for p s h''
  proof -
    from that have h'': "h'' = h'\<lparr>arrayObjs := arrayObjs h' @ [ps' @ [p]]\<rparr>"
      by (simp add: appendSlice_def tab'_def newArray_def h'_def A_def ps'_def)
    show ?thesis unfolding t
    proof (rule snapshot_frame[OF ta el])
      show "ta < length (tableObjs h'')" using ta by (simp add: h'' h'_def)
      show "tableObjs h'' ! ta = tableObjs h ! ta" using ta by (simp add: h'' h'_def nth_append)
      show "\<forall>b<length (arrayObjs h). b < length (arrayObjs h'') \<and> arrayObjs h'' ! b = arrayObjs h ! b"
        by (simp add: h'' h'_def A_def nth_append)
      show "\<forall>q\<in>set ps. load (entryObjs h'') q = load (entryObjs h) q"
        using prese by (simp add: h'')
    qed
  qed
  have m4: "snapshot h'' t = snapshot h t" if "setEntries h' (Some T) s = Some h''" for s h''
  proof -
    from that have h'': "h'' = h'\<lparr>tableObjs := (tableObjs h')[T := (tableObjs h' ! T)\<lparr>Entries := s\<rparr>]\<rparr>"
      by (simp add: setEntries_def split: if_splits)
    show ?thesis unfolding t
    proof (rule snapshot_frame[OF ta el])
      show "ta < length (tableObjs h'')" using ta by (simp add: h'' h'_def)
      show "tableObjs h'' ! ta = tableObjs h ! ta" using ta by (simp add: h'' h'_def nth_append T_def)
      show "\<forall>b<length (arrayObjs h). b < length (arrayObjs h'') \<and> arrayObjs h'' ! b = arrayObjs h ! b"
        using pres by (simp add: h'')
      show "\<forall>q\<in>set ps. load (entryObjs h'') q = load (entryObjs h) q"
        using prese by (simp add: h'')
    qed
  qed
  show ?thesis
    apply (rule exI[of _ "Some T"], rule exI[of _ h'], rule exI[of _ "tableObjs h ! ta"],
           rule exI[of _ ps], rule exI[of _ tab'], rule exI[of _ ps'])
    using clone s0 s1 len copy fresh_t bs fresh_a disj fresh_e keep m1 m2 m3 m4
    by (intro conjI) blast+
qed

text \<open>C8 on the table with the token and the \<^verbatim>\<open>github\<close> entry.\<close>

theorem Clone_deep_copy_witness:
  "wfTable (mem exTwo) (auth exTwo) \<and>
   (\<exists>at h'. AuthTable_Clone (mem exTwo) (auth exTwo) = Some (at, h') \<and>
      at \<noteq> auth exTwo \<and> load (tableObjs (mem exTwo)) at = None \<and>
      entriesOf h' at = entriesOf (mem exTwo) (auth exTwo) \<and>
      snapshot h' (auth exTwo) = snapshot (mem exTwo) (auth exTwo))"
proof -
  have a: "wfTable (mem exTwo) (auth exTwo)"
    by (simp add: wfTable_def heap_defs ex_defs eval_nat_numeral)
  from Clone_deep_copy[OF a] obtain at h' where
    r: "AuthTable_Clone (mem exTwo) (auth exTwo) = Some (at, h')"
    and p: "at \<noteq> auth exTwo" "load (tableObjs (mem exTwo)) at = None"
      "snapshot h' (auth exTwo) = snapshot (mem exTwo) (auth exTwo)"
    by blast
  have "AuthTable_Clone (mem exTwo) (auth exTwo) =
      Some (Some 1, \<lparr>entryObjs = [exTokenEntry, exGithubEntry, exTokenEntry, exGithubEntry],
                     arrayObjs = [[Some 0, Some 1], [Some 2, Some 3]],
                     tableObjs = [\<lparr>Entries = \<lparr>base = Some 0, len = 2\<rparr>\<rparr>,
                                  \<lparr>Entries = \<lparr>base = Some 1, len = 2\<rparr>\<rparr>]\<rparr>)"
    by (simp add: AuthTable_Clone_def AuthEntry_Clone_def CloneLoop.simps Let_def
        heap_defs exTwo_def eval_nat_numeral)
  with r have "entriesOf h' at = entriesOf (mem exTwo) (auth exTwo)"
    by (auto simp: entriesOf_def snapshot_def heap_defs exTwo_def eval_nat_numeral)
  with a r p show ?thesis by blast
qed

subsection \<open>persistAuth on a well-formed table\<close>

lemma encodePtrs_total:
  "\<forall>p\<in>set ps. \<exists>a. p = Some a \<and> a < length (entryObjs h) \<Longrightarrow> \<exists>js. encodePtrs h ps = Some js"
  by (induction ps) auto

lemma json_Marshal_total:
  assumes "wfTable h t"
  shows "\<exists>raw. json_Marshal h t = Some raw"
proof -
  from assms obtain ta ps where t: "t = Some ta" "ta < length (tableObjs h)"
    "elems h (Entries (tableObjs h ! ta)) = Some ps"
    and v: "\<forall>p\<in>set ps. \<exists>a. p = Some a \<and> a < length (entryObjs h)"
    by (auto elim!: wfTableD)
  from encodePtrs_total[OF v] obtain js where "encodePtrs h ps = Some js" ..
  with t show ?thesis
    by (simp add: json_Marshal_def split: option.splits)
qed

lemma persistAuth_run:
  assumes "wfTable (mem c) t"
  shows "\<exists>rec. Key rec = coreAuthConfigPath \<and> json_Marshal (mem c) t = Some (Value rec) \<and>
    persistAuth env c t =
      (let (r, b) = barrier_Put env (barrier c) rec
       in Some (map_option External r,
            (c\<lparr>barrier := b,
               calls := calls c @ Put rec r #
                 (if r = None then [] else [Printf ''[ERR] core: failed to persist auth table: ''])\<rparr>)))"
proof -
  from json_Marshal_total[OF assms] obtain raw where raw: "json_Marshal (mem c) t = Some raw" ..
  obtain r b where p: "barrier_Put env (barrier c) \<lparr>Key = coreAuthConfigPath, Value = raw\<rparr> = (r, b)"
    by fastforce
  show ?thesis
    apply (rule exI[of _ "\<lparr>Key = coreAuthConfigPath, Value = raw\<rparr>"])
    using raw p
    by (cases r) (simp_all add: persistAuth_def called_def Let_def)
qed

lemma map_nth_append_upt:
  "map ((!) (ys @ xs)) [length ys ..< length ys + length xs] = xs"
  by (rule nth_equalityI) (simp_all add: nth_append)

subsection \<open>The runs of enableCredential\<close>

text \<open>
  On a well-formed live table and an entry that exists, \<^verbatim>\<open>enableCredential\<close>
  returns, in one of three ways: a check refused the entry and nothing changed;
  the write of the candidate table failed; or the candidate table was written and
  became the live table, and the router was asked to mount the backend.
\<close>

lemma enable_run:
  assumes wf: "wfTable (mem c) (auth c)" and ent: "load (entryObjs (mem c)) entry = Some e"
  shows "\<exists>res c'. enableCredential env c entry = Some (res, c') \<and>
     ((res \<noteq> None \<and> c' = c) \<or>
      (\<exists>rec x. newCalls c c' =
           [Put rec (Some x), Printf ''[ERR] core: failed to persist auth table: ''] \<and>
         res = Some (errorString ''failed to update auth table'') \<and> auth c' = auth c \<and>
         snapshot (mem c') (auth c') = snapshot (mem c) (auth c) \<and> router c' = router c) \<or>
      (\<exists>rec bk path v r. newCalls c c' =
           Put rec None # Mount bk path v r #
             (if r = None then [Printf ''[INFO] core: enabled credential backend ''] else []) \<and>
         res = map_option External r \<and>
         load (tableObjs (mem c)) (auth c') = None \<and>
         wfTable (mem c') (auth c') \<and>
         Key rec = coreAuthConfigPath \<and> json_Marshal (mem c') (auth c') = Some (Value rec) \<and>
         entriesOf (mem c') (auth c') =
           map_option (\<lambda>es. es @ [Some (e\<lparr>UUID := fst (generateUUID env (uuids c))\<rparr>)])
             (entriesOf (mem c) (auth c)) \<and>
         (r, router c') = router_Mount env (router c) bk path v))"
proof -
  define h where "h = mem c"
  from wf obtain ta ps where t: "auth c = Some ta" and ta: "ta < length (tableObjs h)"
    and el: "elems h (Entries (tableObjs h ! ta)) = Some ps"
    and v: "\<forall>p\<in>set ps. \<exists>a. p = Some a \<and> a < length (entryObjs h)"
    unfolding h_def by (auto elim!: wfTableD)
  from ent obtain a where a: "entry = Some a" "a < length (entryObjs h)" "entryObjs h ! a = e"
    unfolding h_def by (auto simp: load_eq_Some)
  note niu = nameInUse_wf[OF v, of "Name e"]
  consider (reject) "Name e = [] \<or> (\<exists>p\<in>set ps. \<exists>x. load (entryObjs h) p = Some x \<and> Name x = Name e)
       \<or> Type e = ''token'' \<or> (\<exists>err. newCredentialBackend c (Type e) None = Inl err)"
    | (commit) backend where "Name e \<noteq> []"
       "\<not> (\<exists>p\<in>set ps. \<exists>x. load (entryObjs h) p = Some x \<and> Name x = Name e)"
       "Type e \<noteq> ''token''" "newCredentialBackend c (Type e) None = Inr backend"
    by (cases "newCredentialBackend c (Type e) None") (auto, blast)
  then show ?thesis
  proof cases
    case reject
    then have "\<exists>err. enableCredential env c entry = Some (Some err, c)"
      using t ta el a niu
      by (auto simp: enableCredential_def h_def[symmetric])
    then show ?thesis by auto
  next
    case commit
    have en: "enableCredential env c entry = commitEnable env c entry backend"
      using t ta el a niu commit
      by (simp add: enableCredential_def h_def[symmetric])
    have notin: "Some a \<notin> set ps"
      using commit(2) a by auto
    obtain u g where ug: "generateUUID env (uuids c) = (u, g)" by fastforce
    define E where "E = length (entryObjs h)"
    define A where "A = length (arrayObjs h)"
    define T where "T = length (tableObjs h)"
    define n where "n = length ps"
    define e' where "e' = e\<lparr>UUID := u\<rparr>"
    define h1 where "h1 = h\<lparr>entryObjs := (entryObjs h)[a := e']\<rparr>"
    define arr where "arr = map Some [E ..< E + n]"
    define h2 where "h2 = h1\<lparr>entryObjs := entryObjs h1 @ map (\<lambda>p. entryObjs h1 ! the p) ps,
             arrayObjs := arrayObjs h1 @ [arr],
             tableObjs := tableObjs h1 @ [\<lparr>Entries = \<lparr>base = Some A, len = n\<rparr>\<rparr>]\<rparr>"
    define s where "s = \<lparr>base = Some (Suc A), len = n + 1\<rparr>"
    define h3 where "h3 = h2\<lparr>arrayObjs := arrayObjs h2 @ [arr @ [Some a]]\<rparr>"
    define h4 where "h4 = h3\<lparr>tableObjs := (tableObjs h3)[T := \<lparr>Entries = s\<rparr>]\<rparr>"
    have f1: "setUUID h entry u = Some h1"
      using a by (simp add: setUUID_def h1_def e'_def)
    have el1: "elems h1 (Entries (tableObjs h1 ! ta)) = Some ps"
      using elems_frame[OF el, of h1] by (simp add: h1_def)
    have f2: "AuthTable_Clone h1 (Some ta) = Some (Some T, h2)"
      using Clone_closed[of ta h1 ps] ta el1 v
      by (simp add: h1_def h2_def arr_def E_def A_def T_def n_def)
    have f3: "load (tableObjs h2) (Some T) = Some \<lparr>Entries = \<lparr>base = Some A, len = n\<rparr>\<rparr>"
      by (simp add: h2_def h1_def T_def)
    have f4: "appendSlice h2 \<lparr>base = Some A, len = n\<rparr> entry = Some (s, h3)"
      by (simp add: appendSlice_def newArray_def h2_def h1_def A_def arr_def s_def h3_def a)
    have f5: "setEntries h3 (Some T) s = Some h4"
      by (simp add: setEntries_def h4_def h3_def h2_def h1_def T_def)
    have el4: "elems h4 s = Some (arr @ [Some a])"
      by (simp add: elems_def s_def h4_def h3_def h2_def h1_def A_def arr_def nth_append)
    have len4: "length (entryObjs h4) = E + n"
      by (simp add: h4_def h3_def h2_def h1_def E_def n_def)
    have T4: "T < length (tableObjs h4)" "tableObjs h4 ! T = \<lparr>Entries = s\<rparr>"
      by (simp_all add: h4_def h3_def h2_def h1_def T_def)
    have wf4: "wfTable h4 (Some T)"
      using el4 T4 len4 a(2)
      by (auto simp: wfTable_def list_all_iff arr_def E_def)
    have ents1: "map (load (entryObjs h)) ps = map (\<lambda>p. Some (entryObjs h1 ! the p)) ps"
    proof (rule map_cong[OF refl])
      fix p assume p: "p \<in> set ps"
      then obtain b where b: "p = Some b" "b < length (entryObjs h)" using v by blast
      with p notin have "b \<noteq> a" by auto
      with b show "load (entryObjs h) p = Some (entryObjs h1 ! the p)"
        by (simp add: h1_def)
    qed
    have e4: "entryObjs h4 = entryObjs h1 @ map (\<lambda>p. entryObjs h1 ! the p) ps"
      by (simp add: h4_def h3_def h2_def)
    have l1: "length (entryObjs h1) = E" by (simp add: h1_def E_def)
    have "map ((!) (entryObjs h4)) [E ..< E + n] = map (\<lambda>p. entryObjs h1 ! the p) ps"
      unfolding e4 using map_nth_append_upt[of "entryObjs h1" "map (\<lambda>p. entryObjs h1 ! the p) ps"]
      by (simp add: l1 n_def)
    moreover have "map (load (entryObjs h4)) arr = map Some (map ((!) (entryObjs h4)) [E ..< E + n])"
      by (auto simp: arr_def len4)
    ultimately have ents4a: "map (load (entryObjs h4)) arr = map (\<lambda>p. Some (entryObjs h1 ! the p)) ps"
      by (simp add: comp_def)
    have ents4b: "load (entryObjs h4) (Some a) = Some e'"
      using a(2) by (simp add: e4 h1_def nth_append len4[unfolded e4, symmetric])
    have ent4: "entriesOf h4 (Some T) = Some (map (load (entryObjs h)) ps @ [Some e'])"
      using T4 el4 ents4a ents4b ents1
      by (simp add: entriesOf_def snapshot_def)
    have ent0: "entriesOf h (Some ta) = Some (map (load (entryObjs h)) ps)"
      using ta el by (simp add: entriesOf_def snapshot_def)
    have keep: "snapshot h4 (Some ta) = snapshot h (Some ta)"
    proof (rule snapshot_frame[OF ta el])
      show "ta < length (tableObjs h4)" using ta by (simp add: h4_def h3_def h2_def h1_def)
      show "tableObjs h4 ! ta = tableObjs h ! ta"
        using ta by (simp add: h4_def h3_def h2_def h1_def T_def nth_append)
      show "\<forall>b<length (arrayObjs h). b < length (arrayObjs h4) \<and> arrayObjs h4 ! b = arrayObjs h ! b"
        by (simp add: h4_def h3_def h2_def h1_def nth_append)
      show "\<forall>p\<in>set ps. load (entryObjs h4) p = load (entryObjs h) p"
      proof
        fix p assume p: "p \<in> set ps"
        then obtain b where b: "p = Some b" "b < length (entryObjs h)" using v by blast
        with p notin have "b \<noteq> a" by auto
        with b show "load (entryObjs h4) p = load (entryObjs h) p"
          by (simp add: e4 h1_def nth_append)
      qed
    qed
    define c0 where "c0 = c\<lparr>mem := h4, uuids := g\<rparr>"
    have wfc0: "wfTable (mem c0) (Some T)" using wf4 by (simp add: c0_def)
    from persistAuth_run[OF wfc0, of env] obtain rec where
      rec: "Key rec = coreAuthConfigPath" "json_Marshal (mem c0) (Some T) = Some (Value rec)" and
      pa: "persistAuth env c0 (Some T) =
        (let (r, b) = barrier_Put env (barrier c0) rec
         in Some (map_option External r,
            (c0\<lparr>barrier := b,
               calls := calls c0 @ Put rec r #
                 (if r = None then [] else [Printf ''[ERR] core: failed to persist auth table: ''])\<rparr>)))"
      by blast
    obtain pr b where put: "barrier_Put env (barrier c0) rec = (pr, b)" by fastforce
    define c1 where "c1 = c0\<lparr>barrier := b,
               calls := calls c0 @ Put rec pr #
                 (if pr = None then [] else [Printf ''[ERR] core: failed to persist auth table: ''])\<rparr>"
    have pa': "persistAuth env c0 (Some T) = Some (map_option External pr, c1)"
      using pa put by (simp add: c1_def)
    have ce: "commitEnable env c entry backend =
       (case map_option External pr of
          Some x \<Rightarrow> Some (Some (errorString ''failed to update auth table''), c1)
        | None \<Rightarrow> mountBackend env (c1\<lparr>auth := Some T\<rparr>) entry backend
                    (NewBarrierView (credentialBarrierPrefix @ u @ ''/'')))"
      using ug f1 f2 f3 f4 f5 pa' t
      by (simp add: commitEnable_def h_def[symmetric] c0_def[symmetric])
    show ?thesis
    proof (cases pr)
      case (Some x)
      have r: "enableCredential env c entry = Some (Some (errorString ''failed to update auth table''), c1)"
        using en ce Some by simp
      have "newCalls c c1 = [Put rec (Some x), Printf ''[ERR] core: failed to persist auth table: '']"
        using Some by (simp add: newCalls_def c1_def c0_def)
      moreover have "auth c1 = auth c" "router c1 = router c" "mem c1 = h4"
        by (simp_all add: c1_def c0_def)
      ultimately show ?thesis
        using r keep t by (auto simp: h_def)
    next
      case None
      define path where "path = credentialMountPrefix @ Name e @ ''/''"
      define view where "view = NewBarrierView (credentialBarrierPrefix @ u @ ''/'')"
      obtain mr r' where mnt: "router_Mount env (router c) backend path view = (mr, r')"
        by fastforce
      define c3 where "c3 = c1\<lparr>auth := Some T, router := r',
         calls := calls c1 @ Mount backend path view mr #
            (if mr = None then [Printf ''[INFO] core: enabled credential backend ''] else [])\<rparr>"
      have m1: "mem c1 = h4" "router c1 = router c" "calls c1 = calls c @ [Put rec None]"
        using None by (simp_all add: c1_def c0_def)
      have mb: "mountBackend env (c1\<lparr>auth := Some T\<rparr>) entry backend view =
           Some (map_option External mr, c3)"
        using ents4b mnt m1 a(1)
        by (cases mr) (simp_all add: mountBackend_def e'_def path_def called_def c3_def)
      have r: "enableCredential env c entry = Some (map_option External mr, c3)"
        using en ce None mb by (simp add: view_def)
      have nc: "newCalls c c3 = Put rec None # Mount backend path view mr #
             (if mr = None then [Printf ''[INFO] core: enabled credential backend ''] else [])"
        using m1 by (simp add: newCalls_def c3_def)
      have p3: "auth c3 = Some T" "mem c3 = h4" "router c3 = r'"
        using m1 by (simp_all add: c3_def)
      have fresh: "load (tableObjs (mem c)) (auth c3) = None"
        by (simp add: p3 T_def h_def)
      have ents: "entriesOf (mem c3) (auth c3) =
           map_option (\<lambda>es. es @ [Some (e\<lparr>UUID := fst (generateUUID env (uuids c))\<rparr>)])
             (entriesOf (mem c) (auth c))"
        using ent4 ent0 ug t by (simp add: p3 h_def e'_def)
      have "(mr, router c3) = router_Mount env (router c) backend path view"
        using mnt p3 by simp
      moreover have "json_Marshal (mem c3) (auth c3) = Some (Value rec)"
        using rec(2) by (simp add: p3 c0_def)
      ultimately show ?thesis
        using r nc fresh ents wf4 p3 rec(1)
        by (intro exI[of _ "map_option External mr"] exI[of _ c3]) (simp; blast)
    qed
  qed
qed

subsection \<open>The runs of disableCredential\<close>

lemma AuthTable_update [simp]: "t\<lparr>Entries := s\<rparr> = \<lparr>Entries = s\<rparr>"
  by (cases t) simp

lemma removeLoop_closed:
  assumes "tn < length (tableObjs h)"
    and "Entries (tableObjs h ! tn) = \<lparr>base = Some d, len = n\<rparr>"
    and "d < length (arrayObjs h)" and "arrayObjs h ! d = arr" and "length arr = n"
    and "\<forall>p\<in>set arr. \<exists>a. p = Some a \<and> a < length (entryObjs h)"
    and "i \<le> n"
  shows "removeLoop h (Some tn) i n name =
     (case find (\<lambda>j. Name (entryObjs h ! the (arr ! j)) = name) [i ..< n] of
        None \<Rightarrow> Some (False, h)
      | Some j \<Rightarrow>
          Some (True, h\<lparr>arrayObjs := (arrayObjs h)[d := (arr[j := arr ! (n - 1)])[n - 1 := None]],
                        tableObjs := (tableObjs h)[tn := \<lparr>Entries = \<lparr>base = Some d, len = n - 1\<rparr>\<rparr>]\<rparr>))"
  using assms(7)
proof (induction "n - i" arbitrary: i)
  case 0
  then show ?case by (subst removeLoop.simps) simp
next
  case (Suc k)
  then have i: "i < n" by simp
  from i assms(5,6) obtain a where a: "arr ! i = Some a" "a < length (entryObjs h)"
    by (metis nth_mem)
  from i assms(5,6) obtain l where l: "arr ! (n - 1) = Some l"
    by (metis nth_mem diff_less less_nat_zero_code neq0_conv zero_less_one)
  have idx: "index h \<lparr>base = Some d, len = n\<rparr> i = Some (Some a)"
    using i assms(3,4,5) a by (simp add: index_def)
  have up: "[i ..< n] = i # [i + 1 ..< n]" using i by (simp add: upt_conv_Cons)
  show ?case
  proof (cases "Name (entryObjs h ! a) = name")
    case True
    have last: "index h \<lparr>base = Some d, len = n\<rparr> (n - 1) = Some (arr ! (n - 1))"
      using i assms(3,4,5) by (simp add: index_def)
    define h1 where "h1 = h\<lparr>arrayObjs := (arrayObjs h)[d := arr[i := arr ! (n - 1)]]\<rparr>"
    define h2 where "h2 = h1\<lparr>arrayObjs := (arrayObjs h)[d := (arr[i := arr ! (n - 1)])[n - 1 := None]]\<rparr>"
    have s1: "setIndex h \<lparr>base = Some d, len = n\<rparr> i (arr ! (n - 1)) = Some h1"
      using i assms(3,4,5) by (simp add: setIndex_def h1_def)
    have s2: "setIndex h1 \<lparr>base = Some d, len = n\<rparr> (n - 1) None = Some h2"
      using i assms(3,4,5) by (simp add: setIndex_def h1_def h2_def)
    have rs: "reslice h2 \<lparr>base = Some d, len = n\<rparr> (n - 1) = Some \<lparr>base = Some d, len = n - 1\<rparr>"
      using assms(3,4,5) by (simp add: reslice_def h2_def h1_def)
    have se: "setEntries h2 (Some tn) \<lparr>base = Some d, len = n - 1\<rparr> =
        Some (h2\<lparr>tableObjs := (tableObjs h)[tn := \<lparr>Entries = \<lparr>base = Some d, len = n - 1\<rparr>\<rparr>]\<rparr>)"
      using assms(1) by (simp add: setEntries_def h2_def h1_def)
    show ?thesis
      using i assms(1,2) idx a True last s1 s2 rs se
      by (subst removeLoop.simps) (simp add: up h2_def h1_def)
  next
    case False
    have "removeLoop h (Some tn) i n name = removeLoop h (Some tn) (i + 1) n name"
      using i assms(1,2) idx a False by (subst removeLoop.simps) simp
    also have "\<dots> = (case find (\<lambda>j. Name (entryObjs h ! the (arr ! j)) = name) [i + 1 ..< n] of
        None \<Rightarrow> Some (False, h)
      | Some j \<Rightarrow>
          Some (True, h\<lparr>arrayObjs := (arrayObjs h)[d := (arr[j := arr ! (n - 1)])[n - 1 := None]],
                        tableObjs := (tableObjs h)[tn := \<lparr>Entries = \<lparr>base = Some d, len = n - 1\<rparr>\<rparr>]\<rparr>))"
      using Suc.hyps(2) i by (intro Suc.hyps(1)) simp_all
    finally show ?thesis using False a by (simp add: up)
  qed
qed

lemma mset_swap_remove:
  assumes "j < length es"
  shows "mset (butlast (es[j := last es])) = mset es - {#es ! j#}"
proof -
  from assms have "es \<noteq> []" by auto
  then obtain xs l where es: "es = xs @ [l]" by (metis rev_exhaust)
  show ?thesis
  proof (cases "j < length xs")
    case True
    then show ?thesis
      by (simp add: es list_update_append nth_append mset_update)
  next
    case False
    with assms have "j = length xs" by (simp add: es)
    then show ?thesis by (simp add: es list_update_append)
  qed
qed

lemma find_upt_Some:
  "find P [i ..< n] = Some j \<Longrightarrow> i \<le> j \<and> j < n \<and> P j \<and> (\<forall>k. i \<le> k \<and> k < j \<longrightarrow> \<not> P k)"
proof (induction "n - i" arbitrary: i)
  case 0
  then show ?case by simp
next
  case (Suc k)
  then have i: "i < n" by simp
  then have up: "[i ..< n] = i # [Suc i ..< n]" by (simp add: upt_conv_Cons)
  show ?case
  proof (cases "P i")
    case True
    with Suc.prems up i show ?thesis by auto
  next
    case False
    with Suc.prems up have f: "find P [Suc i ..< n] = Some j" by simp
    have "Suc i \<le> j \<and> j < n \<and> P j \<and> (\<forall>k. Suc i \<le> k \<and> k < j \<longrightarrow> \<not> P k)"
      using Suc.hyps(2) by (intro Suc.hyps(1)[OF _ f]) simp
    with False show ?thesis
      by (metis Suc_leD Suc_leI le_neq_implies_less)
  qed
qed

text \<open>
  On a well-formed live table, \<^verbatim>\<open>disableCredential\<close> returns, in one of three
  ways: the name was refused or not found and no call was made; the write of the
  candidate table failed; or the candidate table, the live one without the first
  entry of the name, was written and became the live table, and the router was
  asked to unmount the path.
\<close>

lemma disable_run:
  assumes wf: "wfTable (mem c) (auth c)"
  shows "\<exists>res c'. disableCredential env c name = Some (res, c') \<and>
     ((res \<noteq> None \<and> newCalls c c' = [] \<and> auth c' = auth c \<and>
       snapshot (mem c') (auth c') = snapshot (mem c) (auth c) \<and>
       router c' = router c \<and> barrier c' = barrier c) \<or>
      (\<exists>rec x. newCalls c c' =
           [Put rec (Some x), Printf ''[ERR] core: failed to persist auth table: ''] \<and>
         res = Some (errorString ''failed to update auth table'') \<and> auth c' = auth c \<and>
         snapshot (mem c') (auth c') = snapshot (mem c) (auth c) \<and> router c' = router c) \<or>
      (\<exists>rec path r es j x. newCalls c c' =
           Put rec None # Unmount path r #
             (if r = None then [Printf ''[INFO] core: disabled credential backend ''] else []) \<and>
         res = map_option External r \<and>
         load (tableObjs (mem c)) (auth c') = None \<and>
         wfTable (mem c') (auth c') \<and>
         Key rec = coreAuthConfigPath \<and> json_Marshal (mem c') (auth c') = Some (Value rec) \<and>
         entriesOf (mem c) (auth c) = Some es \<and> j < length es \<and> es ! j = Some x \<and>
         Name x = name \<and> (\<forall>k<j. \<forall>y. es ! k = Some y \<longrightarrow> Name y \<noteq> name) \<and>
         entriesOf (mem c') (auth c') = Some (butlast (es[j := last es])) \<and>
         path = credentialMountPrefix @ name @ ''/'' \<and>
         (r, router c') = router_Unmount env (router c) path))"
proof -
  define h where "h = mem c"
  from wf obtain ta ps where t: "auth c = Some ta" and ta: "ta < length (tableObjs h)"
    and el: "elems h (Entries (tableObjs h ! ta)) = Some ps"
    and v: "\<forall>p\<in>set ps. \<exists>a. p = Some a \<and> a < length (entryObjs h)"
    unfolding h_def by (auto elim!: wfTableD)
  show ?thesis
  proof (cases "name = ''token''")
    case True
    then have "disableCredential env c name =
        Some (Some (errorString ''token credential backend cannot be disabled''), c)"
      using t ta by (simp add: disableCredential_def h_def[symmetric])
    then show ?thesis by (simp add: newCalls_def)
  next
    case False
    define E where "E = length (entryObjs h)"
    define A where "A = length (arrayObjs h)"
    define T where "T = length (tableObjs h)"
    define n where "n = length ps"
    define arr where "arr = map Some [E ..< E + n]"
    define es where "es = map (load (entryObjs h)) ps"
    define h1 where "h1 = h\<lparr>entryObjs := entryObjs h @ map (\<lambda>p. entryObjs h ! the p) ps,
             arrayObjs := arrayObjs h @ [arr],
             tableObjs := tableObjs h @ [\<lparr>Entries = \<lparr>base = Some A, len = n\<rparr>\<rparr>]\<rparr>"
    have f2: "AuthTable_Clone h (Some ta) = Some (Some T, h1)"
      using Clone_closed[OF ta el v]
      by (simp add: h1_def arr_def E_def A_def T_def n_def)
    have f3: "load (tableObjs h1) (Some T) = Some \<lparr>Entries = \<lparr>base = Some A, len = n\<rparr>\<rparr>"
      by (simp add: h1_def T_def)
    have ent0: "entriesOf h (Some ta) = Some es"
      using ta el by (simp add: entriesOf_def snapshot_def es_def)
    have les: "length es = n" by (simp add: es_def n_def)
    have esj: "es ! j = Some (entryObjs h ! the (ps ! j))" if "j < n" for j
    proof -
      from that obtain b where "ps ! j = Some b" "b < length (entryObjs h)"
        using v by (metis n_def nth_mem)
      then show ?thesis using that by (simp add: es_def n_def)
    qed
    have cp: "entryObjs h1 ! (E + j) = entryObjs h ! the (ps ! j)" if "j < n" for j
      using that by (simp add: h1_def E_def n_def nth_append)
    have l1: "length (entryObjs h1) = E + n" by (simp add: h1_def E_def n_def)
    have ents1: "map (load (entryObjs h1)) arr = es"
    proof (rule nth_equalityI)
      show "length (map (load (entryObjs h1)) arr) = length es" by (simp add: arr_def les)
      fix j assume "j < length (map (load (entryObjs h1)) arr)"
      then have j: "j < n" by (simp add: arr_def)
      then show "map (load (entryObjs h1)) arr ! j = es ! j"
        using cp[OF j] esj[OF j] by (simp add: arr_def l1)
    qed
    have keep1: "snapshot h1 (Some ta) = snapshot h (Some ta)"
    proof (rule snapshot_frame[OF ta el])
      show "ta < length (tableObjs h1)" using ta by (simp add: h1_def)
      show "tableObjs h1 ! ta = tableObjs h ! ta" using ta by (simp add: h1_def nth_append)
      show "\<forall>b<length (arrayObjs h). b < length (arrayObjs h1) \<and> arrayObjs h1 ! b = arrayObjs h ! b"
        by (simp add: h1_def nth_append)
      show "\<forall>p\<in>set ps. load (entryObjs h1) p = load (entryObjs h) p"
        using v by (auto simp: h1_def nth_append)
    qed
    define P where "P = (\<lambda>j. Name (entryObjs h1 ! the (arr ! j)) = name)"
    have rl: "removeLoop h1 (Some T) 0 n name =
     (case find P [0 ..< n] of
        None \<Rightarrow> Some (False, h1)
      | Some j \<Rightarrow>
          Some (True, h1\<lparr>arrayObjs := (arrayObjs h1)[A := (arr[j := arr ! (n - 1)])[n - 1 := None]],
                        tableObjs := (tableObjs h1)[T := \<lparr>Entries = \<lparr>base = Some A, len = n - 1\<rparr>\<rparr>]\<rparr>))"
      unfolding P_def
      by (rule removeLoop_closed) (auto simp: h1_def T_def A_def arr_def E_def n_def)
    note dc = t ta False f2 f3
    show ?thesis
    proof (cases "find P [0 ..< n]")
      case None
      then have "disableCredential env c name =
          Some (Some (errorString ''no matching backend''), c\<lparr>mem := h1\<rparr>)"
        using dc rl by (simp add: disableCredential_def h_def[symmetric])
      then show ?thesis
        using keep1 t by (simp add: newCalls_def h_def)
    next
      case (Some j)
      from find_upt_Some[OF Some] have j: "j < n" "P j" "\<forall>k<j. \<not> P k" by auto
      define h2 where "h2 = h1\<lparr>arrayObjs := (arrayObjs h1)[A := (arr[j := arr ! (n - 1)])[n - 1 := None]],
                        tableObjs := (tableObjs h1)[T := \<lparr>Entries = \<lparr>base = Some A, len = n - 1\<rparr>\<rparr>]\<rparr>"
      have rl2: "removeLoop h1 (Some T) 0 n name = Some (True, h2)"
        using rl Some by (simp add: h2_def)
      have larr: "length arr = n" "arr \<noteq> []" using j(1) by (auto simp: arr_def)
      have tk: "take (n - 1) ((arr[j := arr ! (n - 1)])[n - 1 := None]) = butlast (arr[j := last arr])"
        using larr by (simp add: butlast_conv_take last_conv_nth)
      have el2: "elems h2 \<lparr>base = Some A, len = n - 1\<rparr> = Some (butlast (arr[j := last arr]))"
        using tk larr by (simp add: elems_def h2_def h1_def A_def)
      have T2: "T < length (tableObjs h2)" "tableObjs h2 ! T = \<lparr>Entries = \<lparr>base = Some A, len = n - 1\<rparr>\<rparr>"
        by (simp_all add: h2_def h1_def T_def)
      have e2: "entryObjs h2 = entryObjs h1" by (simp add: h2_def)
      have sub: "set (butlast (arr[j := last arr])) \<subseteq> set arr"
      proof -
        have "set (arr[j := last arr]) \<subseteq> insert (last arr) (set arr)"
          by (rule set_update_subset_insert)
        moreover have "last arr \<in> set arr" using larr by simp
        moreover have "set (butlast (arr[j := last arr])) \<subseteq> set (arr[j := last arr])"
          by (auto dest: in_set_butlastD)
        ultimately show ?thesis by blast
      qed
      have arrv: "\<forall>p\<in>set arr. load (entryObjs h1) p \<noteq> None"
        by (auto simp: arr_def l1)
      have wf2: "wfTable h2 (Some T)"
        using el2 T2 sub arrv by (auto simp: wfTable_def list_all_iff e2)
      have "map (load (entryObjs h1)) (butlast (arr[j := last arr])) =
          butlast ((map (load (entryObjs h1)) arr)[j := last (map (load (entryObjs h1)) arr)])"
        using larr by (simp add: map_butlast map_update last_map)
      then have mb: "map (load (entryObjs h1)) (butlast (arr[j := last arr])) = butlast (es[j := last es])"
        by (simp only: ents1)
      have ent2: "entriesOf h2 (Some T) = Some (butlast (es[j := last es]))"
        using el2 T2 mb
        by (simp add: entriesOf_def snapshot_def e2)
      have keep2: "snapshot h2 (Some ta) = snapshot h (Some ta)"
      proof (rule snapshot_frame[OF ta el])
        show "ta < length (tableObjs h2)" using ta by (simp add: h2_def h1_def)
        show "tableObjs h2 ! ta = tableObjs h ! ta"
          using ta by (simp add: h2_def h1_def nth_append T_def)
        show "\<forall>b<length (arrayObjs h). b < length (arrayObjs h2) \<and> arrayObjs h2 ! b = arrayObjs h ! b"
          by (simp add: h2_def h1_def nth_append A_def)
        show "\<forall>p\<in>set ps. load (entryObjs h2) p = load (entryObjs h) p"
          using v by (auto simp: e2 h1_def nth_append)
      qed
      have Pk: "P k \<longleftrightarrow> (\<exists>y. es ! k = Some y \<and> Name y = name)" if "k < n" for k
        using cp[OF that] esj[OF that] that by (simp add: P_def arr_def)
      obtain x where x: "es ! j = Some x" "Name x = name"
        using Pk[OF j(1)] j(2) by blast
      have first: "\<forall>k<j. \<forall>y. es ! k = Some y \<longrightarrow> Name y \<noteq> name"
      proof (intro allI impI)
        fix k y assume k: "k < j" and y: "es ! k = Some y"
        from k j(1) have "k < n" by simp
        from Pk[OF this] j(3) k y show "Name y \<noteq> name" by auto
      qed
      define c0 where "c0 = c\<lparr>mem := h2\<rparr>"
      have wfc0: "wfTable (mem c0) (Some T)" using wf2 by (simp add: c0_def)
      from persistAuth_run[OF wfc0, of env] obtain rec where
        rec: "Key rec = coreAuthConfigPath" "json_Marshal (mem c0) (Some T) = Some (Value rec)" and
        pa: "persistAuth env c0 (Some T) =
          (let (r, b) = barrier_Put env (barrier c0) rec
           in Some (map_option External r,
              (c0\<lparr>barrier := b,
                 calls := calls c0 @ Put rec r #
                   (if r = None then [] else [Printf ''[ERR] core: failed to persist auth table: ''])\<rparr>)))"
        by blast
      obtain pr b where put: "barrier_Put env (barrier c0) rec = (pr, b)" by fastforce
      define c1 where "c1 = c0\<lparr>barrier := b,
                 calls := calls c0 @ Put rec pr #
                   (if pr = None then [] else [Printf ''[ERR] core: failed to persist auth table: ''])\<rparr>"
      have pa': "persistAuth env c0 (Some T) = Some (map_option External pr, c1)"
        using pa put by (simp add: c1_def)
      show ?thesis
      proof (cases pr)
        case (Some y)
        have r: "disableCredential env c name =
            Some (Some (errorString ''failed to update auth table''), c1)"
          using dc rl2 pa' Some
          by (simp add: disableCredential_def h_def[symmetric] c0_def[symmetric])
        have "newCalls c c1 = [Put rec (Some y), Printf ''[ERR] core: failed to persist auth table: '']"
          using Some by (simp add: newCalls_def c1_def c0_def)
        moreover have "auth c1 = auth c" "router c1 = router c" "mem c1 = h2"
          by (simp_all add: c1_def c0_def)
        ultimately show ?thesis
          using r keep2 t by (auto simp: h_def)
      next
        case None
        define path where "path = credentialMountPrefix @ name @ ''/''"
        obtain ur r' where um: "router_Unmount env (router c) path = (ur, r')" by fastforce
        define c3 where "c3 = c1\<lparr>auth := Some T, router := r',
           calls := calls c1 @ Unmount path ur #
              (if ur = None then [Printf ''[INFO] core: disabled credential backend ''] else [])\<rparr>"
        have m1: "mem c1 = h2" "router c1 = router c" "calls c1 = calls c @ [Put rec None]"
          using None by (simp_all add: c1_def c0_def)
        have r: "disableCredential env c name = Some (map_option External ur, c3)"
          using dc rl2 pa' None um m1
          by (cases ur) (simp_all add: disableCredential_def h_def[symmetric] c0_def[symmetric]
              path_def[symmetric] called_def c3_def)
        have nc: "newCalls c c3 = Put rec None # Unmount path ur #
               (if ur = None then [Printf ''[INFO] core: disabled credential backend ''] else [])"
          using m1 by (simp add: newCalls_def c3_def)
        have p3: "auth c3 = Some T" "mem c3 = h2" "router c3 = r'"
          using m1 by (simp_all add: c3_def)
        have fresh: "load (tableObjs (mem c)) (auth c3) = None"
          by (simp add: p3 T_def h_def)
        have jm: "json_Marshal (mem c3) (auth c3) = Some (Value rec)"
          using rec(2) by (simp add: p3 c0_def)
        have um': "(ur, router c3) = router_Unmount env (router c) path"
          using um p3 by simp
        have e0: "entriesOf (mem c) (auth c) = Some es" using ent0 t by (simp add: h_def)
        have e3: "entriesOf (mem c3) (auth c3) = Some (butlast (es[j := last es]))"
          using ent2 by (simp add: p3)
        have w3: "wfTable (mem c3) (auth c3)" using wf2 by (simp add: p3)
        have jl: "j < length es" using j(1) les by simp
        show ?thesis
          apply (rule exI[of _ "map_option External ur"], rule exI[of _ c3])
          apply (rule conjI[OF r])
          apply (rule disjI2, rule disjI2)
          apply (rule exI[of _ rec], rule exI[of _ path], rule exI[of _ ur], rule exI[of _ es],
                 rule exI[of _ j], rule exI[of _ x])
          using nc fresh w3 rec(1) jm e0 jl x first e3 um' path_def
          by simp
      qed
    qed
  qed
qed

subsection \<open>The examples, evaluated\<close>

lemmas run_defs = enableCredential_def commitEnable_def mountBackend_def persistAuth_def
  disableCredential_def AuthTable_Clone_def AuthEntry_Clone_def CloneLoop.simps removeLoop.simps
  newCredentialBackend_def called_def newCalls_def Let_def
  coreAuthConfigPath_def credentialMountPrefix_def credentialBarrierPrefix_def

lemma newCalls_same [simp]: "newCalls c c = []"
  by (simp add: newCalls_def)

lemma exRefusing_run:
  "list_ex failedPut (newCalls exRefusing (snd (the (enableCredential exEnv exRefusing (Some 1)))))"
  by (simp add: run_defs heap_defs json_defs ex_defs)

lemma exMounted_run:
  "newCalls exMounted (snd (the (enableCredential exEnv exMounted (Some 1)))) =
     [Put exCandidate None,
      Mount ''github'' ''auth/github/'' (NewBarrierView ''auth/uuid-x/'') (Some ''existing mount'')]"
  by (simp add: run_defs heap_defs json_defs ex_defs)

lemma exTwo_run:
  "newCalls exTwo (snd (the (disableCredential exEnv exTwo ''github''))) =
     [Put exRecord None, Unmount ''auth/github/'' (Some ''no such mount'')]"
  by (simp add: run_defs heap_defs json_defs ex_defs eval_nat_numeral)

text \<open>A call of \<^verbatim>\<open>enableCredential\<close> that returns and has made a call on a
  collaborator has passed the checks, so the live table was well formed.\<close>

lemma nameInUse_False:
  "nameInUse h ps n = Some False \<Longrightarrow> list_all (\<lambda>p. load (entryObjs h) p \<noteq> None) ps"
  by (induction ps) (auto split: option.splits if_splits)

lemma enable_reaches_commit:
  assumes "enableCredential env c entry = Some (res, c')" and "newCalls c c' \<noteq> []"
  shows "wfTable (mem c) (auth c) \<and> load (entryObjs (mem c)) entry \<noteq> None"
  using assms
  by (auto simp: enableCredential_def wfTable_def
      split: option.splits if_splits sum.splits Option.bind_splits dest: nameInUse_False)

lemma enable_cases:
  assumes "wfTable (mem c) (auth c)" and "load (entryObjs (mem c)) entry = Some e"
    and "enableCredential env c entry = Some (res, c')"
  shows "(res \<noteq> None \<and> c' = c) \<or>
      (\<exists>rec x. newCalls c c' =
           [Put rec (Some x), Printf ''[ERR] core: failed to persist auth table: ''] \<and>
         res = Some (errorString ''failed to update auth table'') \<and> auth c' = auth c \<and>
         snapshot (mem c') (auth c') = snapshot (mem c) (auth c) \<and> router c' = router c) \<or>
      (\<exists>rec bk path v r. newCalls c c' =
           Put rec None # Mount bk path v r #
             (if r = None then [Printf ''[INFO] core: enabled credential backend ''] else []) \<and>
         res = map_option External r \<and>
         load (tableObjs (mem c)) (auth c') = None \<and>
         wfTable (mem c') (auth c') \<and>
         Key rec = coreAuthConfigPath \<and> json_Marshal (mem c') (auth c') = Some (Value rec) \<and>
         entriesOf (mem c') (auth c') =
           map_option (\<lambda>es. es @ [Some (e\<lparr>UUID := fst (generateUUID env (uuids c))\<rparr>)])
             (entriesOf (mem c) (auth c)) \<and>
         (r, router c') = router_Mount env (router c) bk path v)"
proof -
  from enable_run[OF assms(1,2), of env] obtain r0 c0 where
    r0: "enableCredential env c entry = Some (r0, c0)" and
    D: "(r0 \<noteq> None \<and> c0 = c) \<or>
      (\<exists>rec x. newCalls c c0 =
           [Put rec (Some x), Printf ''[ERR] core: failed to persist auth table: ''] \<and>
         r0 = Some (errorString ''failed to update auth table'') \<and> auth c0 = auth c \<and>
         snapshot (mem c0) (auth c0) = snapshot (mem c) (auth c) \<and> router c0 = router c) \<or>
      (\<exists>rec bk path v r. newCalls c c0 =
           Put rec None # Mount bk path v r #
             (if r = None then [Printf ''[INFO] core: enabled credential backend ''] else []) \<and>
         r0 = map_option External r \<and>
         load (tableObjs (mem c)) (auth c0) = None \<and>
         wfTable (mem c0) (auth c0) \<and>
         Key rec = coreAuthConfigPath \<and> json_Marshal (mem c0) (auth c0) = Some (Value rec) \<and>
         entriesOf (mem c0) (auth c0) =
           map_option (\<lambda>es. es @ [Some (e\<lparr>UUID := fst (generateUUID env (uuids c))\<rparr>)])
             (entriesOf (mem c) (auth c)) \<and>
         (r, router c0) = router_Mount env (router c) bk path v)"
    by blast
  from r0 assms(3) have "r0 = res" "c0 = c'" by simp_all
  with D show ?thesis by simp
qed

subsection \<open>A failed write of the candidate table\<close>

text \<open>
  C1: for every live table and every entry passed to \<^verbatim>\<open>enableCredential\<close>,
  if the write of the candidate table failed (a \<^verbatim>\<open>Put\<close> that returned an
  error is among the calls made), then the call returns the error
  \<^verbatim>\<open>failed to update auth table\<close>, the live table is what it was before the
  call (the same pointer, and the same header, pointers and entries behind it),
  \<^verbatim>\<open>Mount\<close> is not among the calls made, and the router is in the state of
  before the call. On a well-formed table and an entry that exists the call
  returns.
\<close>

theorem enable_persist_failure:
  "(wfTable (mem c) (auth c) \<and> load (entryObjs (mem c)) entry \<noteq> None \<longrightarrow>
      enableCredential env c entry \<noteq> None) \<and>
   (\<forall>res c'. enableCredential env c entry = Some (res, c') \<and>
        list_ex failedPut (newCalls c c') \<longrightarrow>
        res = Some (errorString ''failed to update auth table'') \<and>
        auth c' = auth c \<and>
        snapshot (mem c') (auth c') = snapshot (mem c) (auth c) \<and>
        \<not> list_ex isMount (newCalls c c') \<and> router c' = router c)"
proof (rule conjI)
  show "wfTable (mem c) (auth c) \<and> load (entryObjs (mem c)) entry \<noteq> None \<longrightarrow>
      enableCredential env c entry \<noteq> None"
  proof (rule impI)
    assume "wfTable (mem c) (auth c) \<and> load (entryObjs (mem c)) entry \<noteq> None"
    then obtain e where w: "wfTable (mem c) (auth c)"
      and e: "load (entryObjs (mem c)) entry = Some e"
      by auto
    from enable_run[OF w e, of env] show "enableCredential env c entry \<noteq> None" by auto
  qed
next
  show "\<forall>res c'. enableCredential env c entry = Some (res, c') \<and>
        list_ex failedPut (newCalls c c') \<longrightarrow>
        res = Some (errorString ''failed to update auth table'') \<and>
        auth c' = auth c \<and>
        snapshot (mem c') (auth c') = snapshot (mem c) (auth c) \<and>
        \<not> list_ex isMount (newCalls c c') \<and> router c' = router c"
  proof (rule allI, rule allI, rule impI)
    fix res c'
    assume a: "enableCredential env c entry = Some (res, c') \<and> list_ex failedPut (newCalls c c')"
    then have r: "enableCredential env c entry = Some (res, c')"
      and f: "list_ex failedPut (newCalls c c')" by simp_all
    from f have "newCalls c c' \<noteq> []" by auto
    with r enable_reaches_commit[of env c entry res c'] obtain e where
      w: "wfTable (mem c) (auth c)" and e: "load (entryObjs (mem c)) entry = Some e"
      by auto
    from enable_cases[OF w e r] f
    show "res = Some (errorString ''failed to update auth table'') \<and>
        auth c' = auth c \<and>
        snapshot (mem c') (auth c') = snapshot (mem c) (auth c) \<and>
        \<not> list_ex isMount (newCalls c c') \<and> router c' = router c"
      by (elim disjE exE conjE) (simp_all split: if_splits)
  qed
qed

text \<open>C1 on scenario D: enabling \<^verbatim>\<open>ldap\<close> over storage that refuses the write.\<close>

theorem enable_persist_failure_witness:
  "wfTable (mem exRefusing) (auth exRefusing) \<and>
   load (entryObjs (mem exRefusing)) (Some 1) \<noteq> None \<and>
   (\<exists>res c'. enableCredential exEnv exRefusing (Some 1) = Some (res, c') \<and>
      list_ex failedPut (newCalls exRefusing c') \<and>
      res = Some (errorString ''failed to update auth table'') \<and>
      auth c' = auth exRefusing \<and>
      snapshot (mem c') (auth c') = snapshot (mem exRefusing) (auth exRefusing) \<and>
      \<not> list_ex isMount (newCalls exRefusing c') \<and> router c' = router exRefusing)"
proof -
  have a: "wfTable (mem exRefusing) (auth exRefusing)"
    by (simp add: wfTable_def heap_defs ex_defs)
  have b: "load (entryObjs (mem exRefusing)) (Some 1) \<noteq> None"
    by (simp add: heap_defs ex_defs)
  note T = enable_persist_failure[of exRefusing "Some 1" exEnv]
  from T[THEN conjunct1] a b obtain res c' where
    r: "enableCredential exEnv exRefusing (Some 1) = Some (res, c')" by auto
  have f: "list_ex failedPut (newCalls exRefusing c')"
    using exRefusing_run r by simp
  from T[THEN conjunct2, rule_format, OF conjI[OF r f]] r f a b show ?thesis by blast
qed

subsection \<open>A router failure after the table is committed\<close>

text \<open>
  C3: for every well-formed live table, when \<^verbatim>\<open>enableCredential\<close> has written
  the candidate table (a \<^verbatim>\<open>Put\<close> that returned nil) and \<^verbatim>\<open>Mount\<close> then
  returned an error \<open>x\<close>, the call returns \<open>x\<close> itself, and the live table is the
  candidate that was written: a table allocated by the call, whose encoding is the
  record that was put, and whose entries are those of the old live table followed
  by the new entry with its UUID. Likewise when \<^verbatim>\<open>disableCredential\<close> has
  written the candidate table and \<^verbatim>\<open>Unmount\<close> returned an error \<open>x\<close>: the
  call returns \<open>x\<close>, and the live table is the candidate that was written, which
  holds the entries of the old live table without the first entry \<open>y\<close> of the
  name (the last entry stands in its place).
\<close>

theorem commit_then_router_failure:
  assumes "wfTable (mem c) (auth c)" and "load (entryObjs (mem c)) entry = Some e"
  shows "(\<exists>res c'. enableCredential env c entry = Some (res, c') \<and>
            (\<forall>rec bk path v x.
               Put rec None \<in> set (newCalls c c') \<and>
               Mount bk path v (Some x) \<in> set (newCalls c c') \<longrightarrow>
                 res = Some (External x) \<and>
                 load (tableObjs (mem c)) (auth c') = None \<and>
                 json_Marshal (mem c') (auth c') = Some (Value rec) \<and>
                 entriesOf (mem c') (auth c') =
                   map_option (\<lambda>es. es @ [Some (e\<lparr>UUID := fst (generateUUID env (uuids c))\<rparr>)])
                     (entriesOf (mem c) (auth c)))) \<and>
         (\<exists>res c'. disableCredential env c name = Some (res, c') \<and>
            (\<forall>rec path x.
               Put rec None \<in> set (newCalls c c') \<and>
               Unmount path (Some x) \<in> set (newCalls c c') \<longrightarrow>
                 res = Some (External x) \<and>
                 load (tableObjs (mem c)) (auth c') = None \<and>
                 json_Marshal (mem c') (auth c') = Some (Value rec) \<and>
                 (\<exists>es j y. entriesOf (mem c) (auth c) = Some es \<and> j < length es \<and>
                    es ! j = Some y \<and> Name y = name \<and>
                    (\<forall>k<j. \<forall>z. es ! k = Some z \<longrightarrow> Name z \<noteq> name) \<and>
                    entriesOf (mem c') (auth c') = Some (butlast (es[j := last es])) \<and>
                    mset (butlast (es[j := last es])) = mset es - {#Some y#})))"
proof (rule conjI)
  from enable_run[OF assms, of env] obtain res c' where
    r: "enableCredential env c entry = Some (res, c')" and
    d: "(res \<noteq> None \<and> c' = c) \<or>
      (\<exists>rec x. newCalls c c' =
           [Put rec (Some x), Printf ''[ERR] core: failed to persist auth table: '']) \<or>
      (\<exists>rec bk path v r. newCalls c c' =
           Put rec None # Mount bk path v r #
             (if r = None then [Printf ''[INFO] core: enabled credential backend ''] else []) \<and>
         res = map_option External r \<and>
         load (tableObjs (mem c)) (auth c') = None \<and>
         json_Marshal (mem c') (auth c') = Some (Value rec) \<and>
         entriesOf (mem c') (auth c') =
           map_option (\<lambda>es. es @ [Some (e\<lparr>UUID := fst (generateUUID env (uuids c))\<rparr>)])
             (entriesOf (mem c) (auth c)))"
    by blast
  from d have "\<forall>rec bk path v x.
               Put rec None \<in> set (newCalls c c') \<and>
               Mount bk path v (Some x) \<in> set (newCalls c c') \<longrightarrow>
                 res = Some (External x) \<and>
                 load (tableObjs (mem c)) (auth c') = None \<and>
                 json_Marshal (mem c') (auth c') = Some (Value rec) \<and>
                 entriesOf (mem c') (auth c') =
                   map_option (\<lambda>es. es @ [Some (e\<lparr>UUID := fst (generateUUID env (uuids c))\<rparr>)])
                     (entriesOf (mem c) (auth c))"
    by (auto split: if_splits)
  with r show "\<exists>res c'. enableCredential env c entry = Some (res, c') \<and>
            (\<forall>rec bk path v x.
               Put rec None \<in> set (newCalls c c') \<and>
               Mount bk path v (Some x) \<in> set (newCalls c c') \<longrightarrow>
                 res = Some (External x) \<and>
                 load (tableObjs (mem c)) (auth c') = None \<and>
                 json_Marshal (mem c') (auth c') = Some (Value rec) \<and>
                 entriesOf (mem c') (auth c') =
                   map_option (\<lambda>es. es @ [Some (e\<lparr>UUID := fst (generateUUID env (uuids c))\<rparr>)])
                     (entriesOf (mem c) (auth c)))"
    by blast
next
  from disable_run[OF assms(1), of env name] obtain res c' where
    r: "disableCredential env c name = Some (res, c')" and
    d: "(res \<noteq> None \<and> newCalls c c' = []) \<or>
      (\<exists>rec x. newCalls c c' =
           [Put rec (Some x), Printf ''[ERR] core: failed to persist auth table: '']) \<or>
      (\<exists>rec path r es j x. newCalls c c' =
           Put rec None # Unmount path r #
             (if r = None then [Printf ''[INFO] core: disabled credential backend ''] else []) \<and>
         res = map_option External r \<and>
         load (tableObjs (mem c)) (auth c') = None \<and>
         json_Marshal (mem c') (auth c') = Some (Value rec) \<and>
         entriesOf (mem c) (auth c) = Some es \<and> j < length es \<and> es ! j = Some x \<and>
         Name x = name \<and> (\<forall>k<j. \<forall>y. es ! k = Some y \<longrightarrow> Name y \<noteq> name) \<and>
         entriesOf (mem c') (auth c') = Some (butlast (es[j := last es])))"
    by blast
  have "\<forall>rec path x.
               Put rec None \<in> set (newCalls c c') \<and>
               Unmount path (Some x) \<in> set (newCalls c c') \<longrightarrow>
                 res = Some (External x) \<and>
                 load (tableObjs (mem c)) (auth c') = None \<and>
                 json_Marshal (mem c') (auth c') = Some (Value rec) \<and>
                 (\<exists>es j y. entriesOf (mem c) (auth c) = Some es \<and> j < length es \<and>
                    es ! j = Some y \<and> Name y = name \<and>
                    (\<forall>k<j. \<forall>z. es ! k = Some z \<longrightarrow> Name z \<noteq> name) \<and>
                    entriesOf (mem c') (auth c') = Some (butlast (es[j := last es])) \<and>
                    mset (butlast (es[j := last es])) = mset es - {#Some y#})"
  proof (intro allI impI)
    fix rec path x
    assume h: "Put rec None \<in> set (newCalls c c') \<and> Unmount path (Some x) \<in> set (newCalls c c')"
    with d obtain rec' path' r es j y where
      nc: "newCalls c c' = Put rec' None # Unmount path' r #
             (if r = None then [Printf ''[INFO] core: disabled credential backend ''] else [])"
      and p: "res = map_option External r" "load (tableObjs (mem c)) (auth c') = None"
         "json_Marshal (mem c') (auth c') = Some (Value rec')"
         "entriesOf (mem c) (auth c) = Some es" "j < length es" "es ! j = Some y"
         "Name y = name" "\<forall>k<j. \<forall>z. es ! k = Some z \<longrightarrow> Name z \<noteq> name"
         "entriesOf (mem c') (auth c') = Some (butlast (es[j := last es]))"
      by auto
    from h nc have eq: "rec' = rec" "r = Some x" by (auto split: if_splits)
    have ms: "mset (butlast (es[j := last es])) = mset es - {#Some y#}"
      using mset_swap_remove[OF p(5)] p(6) by simp
    show "res = Some (External x) \<and>
                 load (tableObjs (mem c)) (auth c') = None \<and>
                 json_Marshal (mem c') (auth c') = Some (Value rec) \<and>
                 (\<exists>es j y. entriesOf (mem c) (auth c) = Some es \<and> j < length es \<and>
                    es ! j = Some y \<and> Name y = name \<and>
                    (\<forall>k<j. \<forall>z. es ! k = Some z \<longrightarrow> Name z \<noteq> name) \<and>
                    entriesOf (mem c') (auth c') = Some (butlast (es[j := last es])) \<and>
                    mset (butlast (es[j := last es])) = mset es - {#Some y#})"
      using p eq ms by auto
  qed
  with r show "\<exists>res c'. disableCredential env c name = Some (res, c') \<and>
            (\<forall>rec path x.
               Put rec None \<in> set (newCalls c c') \<and>
               Unmount path (Some x) \<in> set (newCalls c c') \<longrightarrow>
                 res = Some (External x) \<and>
                 load (tableObjs (mem c)) (auth c') = None \<and>
                 json_Marshal (mem c') (auth c') = Some (Value rec) \<and>
                 (\<exists>es j y. entriesOf (mem c) (auth c) = Some es \<and> j < length es \<and>
                    es ! j = Some y \<and> Name y = name \<and>
                    (\<forall>k<j. \<forall>z. es ! k = Some z \<longrightarrow> Name z \<noteq> name) \<and>
                    entriesOf (mem c') (auth c') = Some (butlast (es[j := last es])) \<and>
                    mset (butlast (es[j := last es])) = mset es - {#Some y#}))"
    by blast
qed

text \<open>C3 on a router that already has the path of the backend to enable, and on
  a router that has no mount at the path of the backend to disable.\<close>

theorem commit_then_router_failure_witness:
  "wfTable (mem exMounted) (auth exMounted) \<and>
   load (entryObjs (mem exMounted)) (Some 1) =
     Some \<lparr>Name = ''github'', Type = ''github'', Description = [], UUID = []\<rparr> \<and>
   (\<exists>res c'. enableCredential exEnv exMounted (Some 1) = Some (res, c') \<and>
      Put exCandidate None \<in> set (newCalls exMounted c') \<and>
      Mount ''github'' ''auth/github/'' (NewBarrierView ''auth/uuid-x/'') (Some ''existing mount'')
        \<in> set (newCalls exMounted c') \<and>
      res = Some (External ''existing mount'') \<and>
      json_Marshal (mem c') (auth c') = Some (Value exCandidate)) \<and>
   wfTable (mem exTwo) (auth exTwo) \<and>
   (\<exists>res c'. disableCredential exEnv exTwo ''github'' = Some (res, c') \<and>
      Put exRecord None \<in> set (newCalls exTwo c') \<and>
      Unmount ''auth/github/'' (Some ''no such mount'') \<in> set (newCalls exTwo c') \<and>
      res = Some (External ''no such mount'') \<and>
      json_Marshal (mem c') (auth c') = Some (Value exRecord))"
proof -
  have a: "wfTable (mem exMounted) (auth exMounted)"
    by (simp add: wfTable_def heap_defs ex_defs)
  have b: "load (entryObjs (mem exMounted)) (Some 1) =
     Some \<lparr>Name = ''github'', Type = ''github'', Description = [], UUID = []\<rparr>"
    by (simp add: heap_defs ex_defs)
  have c: "wfTable (mem exTwo) (auth exTwo)"
    by (simp add: wfTable_def heap_defs ex_defs eval_nat_numeral)
  have d: "load (entryObjs (mem exTwo)) (Some 0) = Some exTokenEntry"
    by (simp add: heap_defs ex_defs)
  from commit_then_router_failure[OF a b, of exEnv, THEN conjunct1] obtain res c' where
    r: "enableCredential exEnv exMounted (Some 1) = Some (res, c')" and
    i: "\<forall>rec bk path v x.
               Put rec None \<in> set (newCalls exMounted c') \<and>
               Mount bk path v (Some x) \<in> set (newCalls exMounted c') \<longrightarrow>
                 res = Some (External x) \<and>
                 load (tableObjs (mem exMounted)) (auth c') = None \<and>
                 json_Marshal (mem c') (auth c') = Some (Value rec) \<and>
                 entriesOf (mem c') (auth c') =
                   map_option (\<lambda>es. es @ [Some (\<lparr>Name = ''github'', Type = ''github'',
                       Description = [], UUID = []\<rparr>\<lparr>UUID := fst (generateUUID exEnv (uuids exMounted))\<rparr>)])
                     (entriesOf (mem exMounted) (auth exMounted))"
    by blast
  have n: "newCalls exMounted c' = [Put exCandidate None,
      Mount ''github'' ''auth/github/'' (NewBarrierView ''auth/uuid-x/'') (Some ''existing mount'')]"
    using exMounted_run r by simp
  have m: "Put exCandidate None \<in> set (newCalls exMounted c')"
    "Mount ''github'' ''auth/github/'' (NewBarrierView ''auth/uuid-x/'') (Some ''existing mount'')
        \<in> set (newCalls exMounted c')"
    by (simp_all add: n)
  from i[rule_format, OF conjI[OF m]] have e1: "res = Some (External ''existing mount'') \<and>
      json_Marshal (mem c') (auth c') = Some (Value exCandidate)" by simp
  from commit_then_router_failure[OF c d, of exEnv "''github''", THEN conjunct2] obtain res2 c2 where
    r2: "disableCredential exEnv exTwo ''github'' = Some (res2, c2)" and
    i2: "\<forall>rec path x.
               Put rec None \<in> set (newCalls exTwo c2) \<and>
               Unmount path (Some x) \<in> set (newCalls exTwo c2) \<longrightarrow>
                 res2 = Some (External x) \<and>
                 load (tableObjs (mem exTwo)) (auth c2) = None \<and>
                 json_Marshal (mem c2) (auth c2) = Some (Value rec) \<and>
                 (\<exists>es j y. entriesOf (mem exTwo) (auth exTwo) = Some es \<and> j < length es \<and>
                    es ! j = Some y \<and> Name y = ''github'' \<and>
                    (\<forall>k<j. \<forall>z. es ! k = Some z \<longrightarrow> Name z \<noteq> ''github'') \<and>
                    entriesOf (mem c2) (auth c2) = Some (butlast (es[j := last es])) \<and>
                    mset (butlast (es[j := last es])) = mset es - {#Some y#})"
    by blast
  have n2: "newCalls exTwo c2 = [Put exRecord None, Unmount ''auth/github/'' (Some ''no such mount'')]"
    using exTwo_run r2 by simp
  have m2: "Put exRecord None \<in> set (newCalls exTwo c2)"
    "Unmount ''auth/github/'' (Some ''no such mount'') \<in> set (newCalls exTwo c2)"
    by (simp_all add: n2)
  from i2[rule_format, OF conjI[OF m2]] have e2: "res2 = Some (External ''no such mount'') \<and>
      json_Marshal (mem c2) (auth c2) = Some (Value exRecord)" by simp
  from a b c r m e1 r2 m2 e2 show ?thesis by blast
qed

subsection \<open>setupCredentials\<close>

lemma mountedPaths_simps [simp]:
  "mountedPaths [] = []"
  "mountedPaths (Mount b p v None # cs) = p # mountedPaths cs"
  "mountedPaths (Mount b p v (Some x) # cs) = mountedPaths cs"
  "mountedPaths (Printf s # cs) = mountedPaths cs"
  by (simp_all add: mountedPaths_def)

lemma newCredentialBackend_cong:
  "credentialBackends c' = credentialBackends c \<Longrightarrow>
   newCredentialBackend c' t cf = newCredentialBackend c t cf"
  by (simp add: newCredentialBackend_def)

lemma mountCall_cong:
  "credentialBackends c' = credentialBackends c \<Longrightarrow> mountCall c' e = mountCall c e"
  by (simp add: mountCall_def newCredentialBackend_def)

lemma setupLoop_exact:
  assumes "\<forall>p\<in>set ps. \<exists>a. p = Some a \<and> a < length (entryObjs (mem c))"
  shows "\<exists>res c' new k. setupLoop env c ps = Some (res, c') \<and>
     calls c' = calls c @ new \<and> k \<le> length ps \<and>
     mem c' = mem c \<and> auth c' = auth c \<and> barrier c' = barrier c \<and>
     routerAfter env (router c) new = Some (router c') \<and>
     (\<forall>j<k. \<not> isl (newCredentialBackend c (Type (entryObjs (mem c) ! the (ps ! j))) None)) \<and>
     ((res = None \<and> k = length ps \<and>
       new = map (\<lambda>p. mountCall c (entryObjs (mem c) ! the p)) ps) \<or>
      (res = Some loadAuthFailed \<and> k < length ps \<and>
       ((isl (newCredentialBackend c (Type (entryObjs (mem c) ! the (ps ! k))) None) \<and>
         new = map (\<lambda>p. mountCall c (entryObjs (mem c) ! the p)) (take k ps) @
               [Printf ''[ERR] core: failed to create credential entry '']) \<or>
        (\<exists>bk x. newCredentialBackend c (Type (entryObjs (mem c) ! the (ps ! k))) None = Inr bk \<and>
         new = map (\<lambda>p. mountCall c (entryObjs (mem c) ! the p)) (take k ps) @
               [Mount bk (mountPath (entryObjs (mem c) ! the (ps ! k)))
                  (viewOf (entryObjs (mem c) ! the (ps ! k))) (Some x),
                Printf ''[ERR] core: failed to mount auth entry '']))))"
  using assms
proof (induction ps arbitrary: c)
  case Nil
  show ?case
    by (rule exI[of _ None], rule exI[of _ c], rule exI[of _ "[]"], rule exI[of _ 0]) simp
next
  case (Cons p ps)
  from Cons.prems obtain a where a: "p = Some a" "a < length (entryObjs (mem c))" by auto
  define entry where "entry = entryObjs (mem c) ! a"
  have p0: "entryObjs (mem c) ! the ((p # ps) ! 0) = entry" using a by (simp add: entry_def)
  show ?case
  proof (cases "newCredentialBackend c (Type entry) None")
    case (Inl err)
    have "setupLoop env c (p # ps) = Some (Some loadAuthFailed,
        called c (Printf ''[ERR] core: failed to create credential entry ''))"
      using a Inl by (simp add: entry_def)
    then show ?thesis
      using Inl p0
      by (intro exI[of _ "Some loadAuthFailed"]
            exI[of _ "called c (Printf ''[ERR] core: failed to create credential entry '')"]
            exI[of _ "[Printf ''[ERR] core: failed to create credential entry '']"] exI[of _ 0])
         (simp add: called_def)
  next
    case (Inr backend)
    define view where "view = NewBarrierView (credentialBarrierPrefix @ UUID entry @ ''/'')"
    define path where "path = credentialMountPrefix @ Name entry @ ''/''"
    have vp: "viewOf entry = view" "mountPath entry = path"
      by (simp_all add: viewOf_def mountPath_def view_def path_def)
    obtain err r where m: "router_Mount env (router c) backend path view = (err, r)" by fastforce
    define c1 where "c1 = c\<lparr>router := r, calls := calls c @ [Mount backend path view err]\<rparr>"
    show ?thesis
    proof (cases err)
      case (Some x)
      have "setupLoop env c (p # ps) = Some (Some loadAuthFailed,
          called c1 (Printf ''[ERR] core: failed to mount auth entry ''))"
        using a Inr m Some
        by (simp add: entry_def[symmetric] view_def[symmetric] path_def[symmetric] called_def c1_def)
      then show ?thesis
        using Some Inr p0 m vp
        by (intro exI[of _ "Some loadAuthFailed"]
              exI[of _ "called c1 (Printf ''[ERR] core: failed to mount auth entry '')"]
              exI[of _ "[Mount backend path view err, Printf ''[ERR] core: failed to mount auth entry '']"]
              exI[of _ 0])
           (simp add: called_def c1_def)
    next
      case None
      have step: "setupLoop env c (p # ps) = setupLoop env c1 ps"
        using a Inr m None
        by (simp add: entry_def[symmetric] view_def[symmetric] path_def[symmetric] called_def c1_def)
      have mem1: "mem c1 = mem c" "credentialBackends c1 = credentialBackends c"
        "calls c1 = calls c @ [Mount backend path view None]" "router c1 = r"
        "auth c1 = auth c" "barrier c1 = barrier c"
        using None by (simp_all add: c1_def)
      note cg = newCredentialBackend_cong[OF mem1(2)] mountCall_cong[OF mem1(2)]
      have "\<forall>p\<in>set ps. \<exists>a. p = Some a \<and> a < length (entryObjs (mem c1))"
        using Cons.prems by (simp add: mem1)
      from Cons.IH[OF this] obtain res c' new k where
        IH: "setupLoop env c1 ps = Some (res, c')" "calls c' = calls c1 @ new" "k \<le> length ps"
          "mem c' = mem c1" "auth c' = auth c1" "barrier c' = barrier c1"
          "routerAfter env (router c1) new = Some (router c')"
          "\<forall>j<k. \<not> isl (newCredentialBackend c1 (Type (entryObjs (mem c1) ! the (ps ! j))) None)"
        and D: "(res = None \<and> k = length ps \<and>
       new = map (\<lambda>p. mountCall c1 (entryObjs (mem c1) ! the p)) ps) \<or>
      (res = Some loadAuthFailed \<and> k < length ps \<and>
       ((isl (newCredentialBackend c1 (Type (entryObjs (mem c1) ! the (ps ! k))) None) \<and>
         new = map (\<lambda>p. mountCall c1 (entryObjs (mem c1) ! the p)) (take k ps) @
               [Printf ''[ERR] core: failed to create credential entry '']) \<or>
        (\<exists>bk x. newCredentialBackend c1 (Type (entryObjs (mem c1) ! the (ps ! k))) None = Inr bk \<and>
         new = map (\<lambda>p. mountCall c1 (entryObjs (mem c1) ! the p)) (take k ps) @
               [Mount bk (mountPath (entryObjs (mem c1) ! the (ps ! k)))
                  (viewOf (entryObjs (mem c1) ! the (ps ! k))) (Some x),
                Printf ''[ERR] core: failed to mount auth entry ''])))"
        by blast
      have mc: "mountCall c entry = Mount backend path view None"
        using Inr vp by (simp add: mountCall_def)
      have ra: "routerAfter env (router c) (Mount backend path view None # new) = Some (router c')"
        using m None IH(7) by (simp add: mem1)
      have before: "\<forall>j<Suc k. \<not> isl (newCredentialBackend c
           (Type (entryObjs (mem c) ! the ((p # ps) ! j))) None)"
      proof (intro allI impI)
        fix j assume j: "j < Suc k"
        show "\<not> isl (newCredentialBackend c (Type (entryObjs (mem c) ! the ((p # ps) ! j))) None)"
        proof (cases j)
          case 0
          then show ?thesis using Inr p0 by simp
        next
          case (Suc i)
          with j IH(8) show ?thesis by (simp add: cg mem1)
        qed
      qed
      show ?thesis
        apply (rule exI[of _ res], rule exI[of _ c'],
               rule exI[of _ "Mount backend path view None # new"], rule exI[of _ "Suc k"])
        apply (intro conjI)
        subgoal using IH step by simp
        subgoal using IH mem1 by simp
        subgoal using IH by simp
        subgoal using IH mem1 by simp
        subgoal using IH mem1 by simp
        subgoal using IH mem1 by simp
        subgoal by (rule ra)
        subgoal by (rule before)
        subgoal using D a mc by (auto simp: cg mem1 entry_def)
        done
    qed
  qed
qed

lemma mountedPaths_append:
  "mountedPaths (as @ bs) = mountedPaths as @ mountedPaths bs"
  by (simp add: mountedPaths_def)

lemma mountedPaths_mountCalls:
  "mountedPaths (map (mountCall c) ys) = map mountPath ys"
  by (induction ys) (simp_all add: mountCall_def)

lemma mountCalls_plain:
  "\<not> list_ex isUnmount (map (mountCall c) ys)" "\<not> list_ex failedMount (map (mountCall c) ys)"
  by (simp_all add: list_ex_iff mountCall_def)

text \<open>
  C2, as the claim states it, fails: on the table with the token entry and an
  entry of the unregistered type \<^verbatim>\<open>okta\<close>, \<^verbatim>\<open>setupCredentials\<close> returns
  \<^verbatim>\<open>loadAuthFailed\<close> and the router still has the mount of the token backend,
  made before the failure (the loop of lines 217-237 returns without undoing
  anything).
\<close>

theorem setup_leaves_token_mounted:
  "isl (newCredentialBackend exOkta (Type exOktaEntry) None) \<and>
   entriesOf (mem exOkta) (auth exOkta) = Some [Some exTokenEntry, Some exOktaEntry] \<and>
   map_option (\<lambda>(r, c'). (r, router c')) (setupCredentials exEnv exOkta) =
     Some (Some loadAuthFailed, [(''auth/token/'', ''token'', NewBarrierView ''auth/uuid-/'')])"
  by (simp add: setupCredentials_def newCredentialBackend_def called_def entriesOf_def
      snapshot_def loadAuthFailed_def credentialMountPrefix_def credentialBarrierPrefix_def
      heap_defs ex_defs eval_nat_numeral Let_def)

text \<open>
  C2, amended: for every well-formed live table with the entries \<open>xs\<close>,
  \<^verbatim>\<open>setupCredentials\<close> returns, and there is an index \<open>k\<close> such that the
  backend of every entry before \<open>k\<close> is constructed and the calls of the pass begin
  with the successful \<^verbatim>\<open>Mount\<close> of each of these entries, in table order, at
  the mount prefix followed by its name, with the view at the barrier prefix
  followed by its UUID. Either \<open>k\<close> is the length of the table, these are all
  the calls and the result is nil; or entry \<open>k\<close> is the first failing one and the result is \<^verbatim>\<open>loadAuthFailed\<close>: its factory fails and only
  the log line follows, or its backend is constructed, its \<^verbatim>\<open>Mount\<close> returns an
  error, and the log line follows. The recorded results are those of the router,
  called in this order from its state before the pass, and its state after the pass
  is the one these calls leave. So the mounts that succeeded are those of the \<open>k\<close>
  entries before the failing one, they are left in place (\<^verbatim>\<open>Unmount\<close> is never
  called), no entry after it is mounted, and a factory or \<^verbatim>\<open>Mount\<close> failure
  anywhere in the table makes the result \<^verbatim>\<open>loadAuthFailed\<close>. The live table, the
  store and the barrier are unchanged.
\<close>

theorem setup_stops_at_first_failure:
  assumes "wfTable (mem c) (auth c)"
  shows "\<exists>res c' xs k. setupCredentials env c = Some (res, c') \<and>
     entriesOf (mem c) (auth c) = Some (map Some xs) \<and> k \<le> length xs \<and>
     (\<forall>j<k. \<not> isl (newCredentialBackend c (Type (xs ! j)) None)) \<and>
     routerAfter env (router c) (newCalls c c') = Some (router c') \<and>
     ((res = None \<and> k = length xs \<and> newCalls c c' = map (mountCall c) xs) \<or>
      (res = Some loadAuthFailed \<and> k < length xs \<and>
       ((isl (newCredentialBackend c (Type (xs ! k)) None) \<and>
         newCalls c c' = map (mountCall c) (take k xs) @
               [Printf ''[ERR] core: failed to create credential entry '']) \<or>
        (\<exists>bk x. newCredentialBackend c (Type (xs ! k)) None = Inr bk \<and>
         newCalls c c' = map (mountCall c) (take k xs) @
               [Mount bk (mountPath (xs ! k)) (viewOf (xs ! k)) (Some x),
                Printf ''[ERR] core: failed to mount auth entry ''])))) \<and>
     mountedPaths (newCalls c c') = map mountPath (take k xs) \<and>
     \<not> list_ex isUnmount (newCalls c c') \<and>
     ((\<exists>x\<in>set xs. isl (newCredentialBackend c (Type x) None)) \<or>
        list_ex failedMount (newCalls c c') \<longrightarrow> res = Some loadAuthFailed \<and> k < length xs) \<and>
     (res = None \<longrightarrow> k = length xs) \<and>
     auth c' = auth c \<and> mem c' = mem c \<and> barrier c' = barrier c"
proof -
  from assms obtain ta ps where t: "auth c = Some ta" and ta: "ta < length (tableObjs (mem c))"
    and el: "elems (mem c) (Entries (tableObjs (mem c) ! ta)) = Some ps"
    and v: "\<forall>p\<in>set ps. \<exists>a. p = Some a \<and> a < length (entryObjs (mem c))"
    by (auto elim!: wfTableD)
  define E where "E = (\<lambda>p. entryObjs (mem c) ! the p)"
  define xs where "xs = map E ps"
  have es: "entriesOf (mem c) (auth c) = Some (map Some xs)"
    using t ta el v by (auto simp: entriesOf_def snapshot_def xs_def E_def)
  obtain res c' new k where
    r: "setupLoop env c ps = Some (res, c')" and nc: "calls c' = calls c @ new"
    and k: "k \<le> length ps"
    and fr: "mem c' = mem c" "auth c' = auth c" "barrier c' = barrier c"
    and ra: "routerAfter env (router c) new = Some (router c')"
    and bf: "\<forall>j<k. \<not> isl (newCredentialBackend c (Type (E (ps ! j))) None)"
    and D: "(res = None \<and> k = length ps \<and> new = map (\<lambda>p. mountCall c (E p)) ps) \<or>
      (res = Some loadAuthFailed \<and> k < length ps \<and>
       ((isl (newCredentialBackend c (Type (E (ps ! k))) None) \<and>
         new = map (\<lambda>p. mountCall c (E p)) (take k ps) @
               [Printf ''[ERR] core: failed to create credential entry '']) \<or>
        (\<exists>bk x. newCredentialBackend c (Type (E (ps ! k))) None = Inr bk \<and>
         new = map (\<lambda>p. mountCall c (E p)) (take k ps) @
               [Mount bk (mountPath (E (ps ! k))) (viewOf (E (ps ! k))) (Some x),
                Printf ''[ERR] core: failed to mount auth entry ''])))"
    using setupLoop_exact[OF v, of env] unfolding E_def by blast
  have sc: "setupCredentials env c = Some (res, c')"
    using t ta el r by (simp add: setupCredentials_def)
  have new: "newCalls c c' = new" using nc by (simp add: newCalls_def)
  have lx: "length xs = length ps" by (simp add: xs_def)
  have nth: "xs ! j = E (ps ! j)" if "j < length ps" for j using that by (simp add: xs_def)
  have mp: "map (\<lambda>p. mountCall c (E p)) qs = map (mountCall c) (map E qs)" for qs
    by simp
  have bf': "\<forall>j<k. \<not> isl (newCredentialBackend c (Type (xs ! j)) None)"
    using bf k nth by auto
  have D': "(res = None \<and> k = length xs \<and> new = map (mountCall c) xs) \<or>
      (res = Some loadAuthFailed \<and> k < length xs \<and>
       ((isl (newCredentialBackend c (Type (xs ! k)) None) \<and>
         new = map (mountCall c) (take k xs) @
               [Printf ''[ERR] core: failed to create credential entry '']) \<or>
        (\<exists>bk x. newCredentialBackend c (Type (xs ! k)) None = Inr bk \<and>
         new = map (mountCall c) (take k xs) @
               [Mount bk (mountPath (xs ! k)) (viewOf (xs ! k)) (Some x),
                Printf ''[ERR] core: failed to mount auth entry ''])))"
    using D unfolding mp lx take_map[symmetric] xs_def[symmetric]
    by (elim disjE conjE exE) (simp_all add: nth)
  have paths: "mountedPaths new = map mountPath (take k xs)"
    using D' by (elim disjE conjE exE)
      (simp_all add: mountedPaths_append mountedPaths_mountCalls)
  have nu: "\<not> list_ex isUnmount new"
    using D' mountCalls_plain(1)[of c] by (elim disjE conjE exE) simp_all
  have none: "res = None \<longrightarrow> k = length xs"
    using D' by (auto simp: loadAuthFailed_def)
  have imp: "(\<exists>x\<in>set xs. isl (newCredentialBackend c (Type x) None)) \<or>
        list_ex failedMount new \<longrightarrow> res = Some loadAuthFailed \<and> k < length xs"
  proof (rule impI)
    assume h: "(\<exists>x\<in>set xs. isl (newCredentialBackend c (Type x) None)) \<or> list_ex failedMount new"
    have "\<not> (res = None \<and> k = length xs \<and> new = map (mountCall c) xs)"
    proof
      assume n: "res = None \<and> k = length xs \<and> new = map (mountCall c) xs"
      with bf' have "\<forall>x\<in>set xs. \<not> isl (newCredentialBackend c (Type x) None)"
        by (auto simp: in_set_conv_nth)
      moreover from n have "\<not> list_ex failedMount new" by (simp add: mountCalls_plain(2))
      ultimately show False using h by blast
    qed
    with D' show "res = Some loadAuthFailed \<and> k < length xs" by blast
  qed
  show ?thesis
    apply (rule exI[of _ res], rule exI[of _ c'], rule exI[of _ xs], rule exI[of _ k])
    unfolding new
    using sc es k bf' ra D' paths nu imp none fr by (simp add: lx)
qed

text \<open>
  The amended C2 on the table with the token entry and the entry of the
  unregistered type \<^verbatim>\<open>okta\<close>: the theorem leaves one run only, the one with
  \<open>k = 1\<close>. The token backend is constructed and mounted, the factory of the second
  entry fails, the result is \<^verbatim>\<open>loadAuthFailed\<close>, and the router is left with the
  token mount.
\<close>

theorem setup_stops_at_first_failure_witness:
  "wfTable (mem exOkta) (auth exOkta) \<and>
   entriesOf (mem exOkta) (auth exOkta) = Some [Some exTokenEntry, Some exOktaEntry] \<and>
   newCredentialBackend exOkta (Type exTokenEntry) None = Inr ''token'' \<and>
   isl (newCredentialBackend exOkta (Type exOktaEntry) None) \<and>
   (\<exists>c'. setupCredentials exEnv exOkta = Some (Some loadAuthFailed, c') \<and>
      newCalls exOkta c' =
        [Mount ''token'' ''auth/token/'' (NewBarrierView ''auth/uuid-/'') None,
         Printf ''[ERR] core: failed to create credential entry ''] \<and>
      router c' = [(''auth/token/'', ''token'', NewBarrierView ''auth/uuid-/'')] \<and>
      mountedPaths (newCalls exOkta c') = [''auth/token/''] \<and>
      \<not> list_ex isUnmount (newCalls exOkta c') \<and>
      auth c' = auth exOkta \<and> mem c' = mem exOkta)"
proof -
  have a: "wfTable (mem exOkta) (auth exOkta)"
    by (simp add: wfTable_def heap_defs ex_defs eval_nat_numeral)
  have es: "entriesOf (mem exOkta) (auth exOkta) = Some (map Some [exTokenEntry, exOktaEntry])"
    by (simp add: entriesOf_def snapshot_def heap_defs ex_defs eval_nat_numeral)
  have ft: "newCredentialBackend exOkta (Type exTokenEntry) None = Inr ''token''"
    by (simp add: newCredentialBackend_def ex_defs)
  have fo: "isl (newCredentialBackend exOkta (Type exOktaEntry) None)"
    by (simp add: newCredentialBackend_def ex_defs)
  have ft': "newCredentialBackend exOkta ''token'' None = Inr ''token''"
    by (simp add: newCredentialBackend_def ex_defs)
  have mc: "mountCall exOkta exTokenEntry =
      Mount ''token'' ''auth/token/'' (NewBarrierView ''auth/uuid-/'') None"
    by (simp add: mountCall_def ft' mountPath_def viewOf_def credentialMountPrefix_def
        credentialBarrierPrefix_def exTokenEntry_def)
  have mpt: "mountPath exTokenEntry = ''auth/token/''"
    by (simp add: mountPath_def credentialMountPrefix_def exTokenEntry_def)
  have r0: "router exOkta = []" by (simp add: exOkta_def)
  obtain res c' xs k where
    r: "setupCredentials exEnv exOkta = Some (res, c')"
    and e: "entriesOf (mem exOkta) (auth exOkta) = Some (map Some xs)"
    and k: "k \<le> length xs"
    and bf: "\<forall>j<k. \<not> isl (newCredentialBackend exOkta (Type (xs ! j)) None)"
    and ra: "routerAfter exEnv (router exOkta) (newCalls exOkta c') = Some (router c')"
    and D: "(res = None \<and> k = length xs \<and> newCalls exOkta c' = map (mountCall exOkta) xs) \<or>
      (res = Some loadAuthFailed \<and> k < length xs \<and>
       ((isl (newCredentialBackend exOkta (Type (xs ! k)) None) \<and>
         newCalls exOkta c' = map (mountCall exOkta) (take k xs) @
               [Printf ''[ERR] core: failed to create credential entry '']) \<or>
        (\<exists>bk x. newCredentialBackend exOkta (Type (xs ! k)) None = Inr bk \<and>
         newCalls exOkta c' = map (mountCall exOkta) (take k xs) @
               [Mount bk (mountPath (xs ! k)) (viewOf (xs ! k)) (Some x),
                Printf ''[ERR] core: failed to mount auth entry ''])))"
    and p: "mountedPaths (newCalls exOkta c') = map mountPath (take k xs)"
    and nu: "\<not> list_ex isUnmount (newCalls exOkta c')"
    and fr: "auth c' = auth exOkta" "mem c' = mem exOkta"
    using setup_stops_at_first_failure[OF a, of exEnv] by blast
  from e es have "map Some xs = map Some [exTokenEntry, exOktaEntry]" by simp
  then have xs: "xs = [exTokenEntry, exOktaEntry]"
    by (simp only: inj_map_eq_map[OF inj_Some])
  have notall: "\<not> (k = length xs)"
  proof
    assume "k = length xs"
    then have "1 < k" by (simp add: xs)
    with bf have "\<not> isl (newCredentialBackend exOkta (Type (xs ! 1)) None)"
      by blast
    with fo show False by (simp add: xs)
  qed
  have not0: "k \<noteq> 0"
  proof
    assume k0: "k = 0"
    from D notall k0 obtain bk x where
      "newCalls exOkta c' = [Mount bk (mountPath (xs ! 0)) (viewOf (xs ! 0)) (Some x),
                Printf ''[ERR] core: failed to mount auth entry '']"
      by (auto simp: xs ft)
    with ra show False
      by (simp add: r0 exEnv_def exMount_def)
  qed
  from k notall not0 have k1: "k = 1" by (simp add: xs)
  from D notall have res: "res = Some loadAuthFailed" by blast
  from D notall k1 fo have nc: "newCalls exOkta c' =
        [Mount ''token'' ''auth/token/'' (NewBarrierView ''auth/uuid-/'') None,
         Printf ''[ERR] core: failed to create credential entry '']"
    by (auto simp: xs mc)
  from ra have rt: "router c' = [(''auth/token/'', ''token'', NewBarrierView ''auth/uuid-/'')]"
    by (simp add: nc r0 exEnv_def exMount_def)
  from p have mp: "mountedPaths (newCalls exOkta c') = [''auth/token/'']"
    by (simp only: k1 xs mpt take_Suc_conv_app_nth list.map One_nat_def take_0 take_Suc_Cons)
  show ?thesis
    apply (intro conjI)
        apply (rule a)
       apply (rule es[simplified])
      apply (rule ft)
     apply (rule fo)
    apply (rule exI[of _ c'])
    using r res nc rt mp nu fr by simp
qed

end
